theory Spec2Isabelle
  imports Main "HOL-Library.Word"
begin

unbundle bit_operations_syntax

section \<open>Addresses and image-base offsets (PEParser::ibo32)\<close>

text \<open>
  The toolkit targets x86-64: a pointer and \<open>uintptr_t\<close> are 64-bit words, \<open>int\<close> is a
  32-bit two's complement word. \<open>PEParser::ibo32\<close> wraps one \<open>int val\<close>.

  \<^item> \<open>ibo32(T1* address, T2* base)\<close> stores
    \<open>static_cast<int>(uintptr_t(address) - uintptr_t(base))\<close>: the 64-bit difference, cut to
    its low 32 bits.
  \<^item> \<open>as(T2* base)\<close> returns \<open>(unsigned char*)base + val\<close>: the \<open>int\<close> is sign-extended to
    pointer width and added.
\<close>

type_synonym addr = "64 word"
type_synonym ibo32 = "32 word"

definition ibo32_of :: "addr \<Rightarrow> addr \<Rightarrow> ibo32" where
  "ibo32_of address base = ucast (address - base)"

definition ibo32_as :: "ibo32 \<Rightarrow> addr \<Rightarrow> addr" where
  "ibo32_as val base = base + scast val"

section \<open>Process memory\<close>

text \<open>
  The code reads and writes the address space of the process it is loaded in: bytes of
  the mapped image, VFT slots, and the headers of trampolines. Memory is a map from byte
  addresses to bytes; multi-byte loads and stores are little-endian (x86-64). A range may
  wrap around the end of the address space, as address arithmetic does.
\<close>

type_synonym byte = "8 word"
type_synonym memory = "addr \<Rightarrow> byte"

fun le_val :: "byte list \<Rightarrow> nat" where
  "le_val [] = 0"
| "le_val (b # bs) = unat b + 256 * le_val bs"

fun le_bytes :: "nat \<Rightarrow> nat \<Rightarrow> byte list" where
  "le_bytes 0 v = []"
| "le_bytes (Suc n) v = of_nat (v mod 256) # le_bytes n (v div 256)"

definition bytes_at :: "memory \<Rightarrow> addr \<Rightarrow> nat \<Rightarrow> byte list" where
  "bytes_at m a n = map (\<lambda>i. m (a + of_nat i)) [0..<n]"

definition read16 :: "memory \<Rightarrow> addr \<Rightarrow> 16 word" where
  "read16 m a = of_nat (le_val (bytes_at m a 2))"

definition read32 :: "memory \<Rightarrow> addr \<Rightarrow> 32 word" where
  "read32 m a = of_nat (le_val (bytes_at m a 4))"

definition read64 :: "memory \<Rightarrow> addr \<Rightarrow> 64 word" where
  "read64 m a = of_nat (le_val (bytes_at m a 8))"

definition write_bytes :: "memory \<Rightarrow> addr \<Rightarrow> byte list \<Rightarrow> memory" where
  "write_bytes m a bs = (\<lambda>x. if unat (x - a) < length bs then bs ! unat (x - a) else m x)"

definition write16 :: "memory \<Rightarrow> addr \<Rightarrow> 16 word \<Rightarrow> memory" where
  "write16 m a v = write_bytes m a (le_bytes 2 (unat v))"

definition write32 :: "memory \<Rightarrow> addr \<Rightarrow> 32 word \<Rightarrow> memory" where
  "write32 m a v = write_bytes m a (le_bytes 4 (unat v))"

definition write64 :: "memory \<Rightarrow> addr \<Rightarrow> 64 word \<Rightarrow> memory" where
  "write64 m a v = write_bytes m a (le_bytes 8 (unat v))"

text \<open>
  \<open>sep a n b k\<close>: the \<open>n\<close> bytes at \<open>a\<close> and the \<open>k\<close> bytes at \<open>b\<close> share no byte.
\<close>

definition sep :: "addr \<Rightarrow> nat \<Rightarrow> addr \<Rightarrow> nat \<Rightarrow> bool" where
  "sep a n b k = (n \<le> unat (b - a) \<and> k \<le> unat (a - b))"

text \<open>
  A \<open>std::string\<close> is its sequence of bytes; \<open>str\<close> writes one as a literal.
  Constructing a \<open>std::string\<close> from a \<open>const char*\<close> reads bytes up to the first NUL, with no
  bound: on memory with no NUL it does not return (\<open>None\<close>).
\<close>

type_synonym cpp_string = "byte list"

definition str :: "string \<Rightarrow> cpp_string" where
  "str s = map (\<lambda>c. of_nat (of_char c)) s"

partial_function (option) c_str :: "memory \<Rightarrow> addr \<Rightarrow> cpp_string option" where
  "c_str m a =
     (if m a = 0 then Some []
      else Option.bind (c_str m (a + 1)) (\<lambda>r. Some (m a # r)))"

section \<open>PEParser\<close>

text \<open>
  \<open>ProcessInfo\<close> carries the module information the parser is given: of \<open>MODULEINFO\<close> the
  base address and the loaded size. \<open>Section\<close> has the fields \<open>name\<close>, \<open>size\<close>, \<open>start\<close>
  and \<open>end\<close> of the source struct. \<open>SectionMap\<close> is the
  \<open>unordered_map<string, vector<unique_ptr<Section>>>\<close>.
\<close>

record ProcessInfo =
  lpBaseOfDll :: addr
  SizeOfImage :: "32 word"

record Section =
  s_name :: cpp_string
  s_size :: "64 word"
  s_start :: ibo32
  s_end :: ibo32

type_synonym PESections = "Section list"
type_synonym SectionMap = "cpp_string \<rightharpoonup> PESections"

definition getSectionsWithName :: "SectionMap \<Rightarrow> cpp_string \<Rightarrow> PESections option" where
  "getSectionsWithName sectionMap nm = sectionMap nm"

definition addSection :: "SectionMap \<Rightarrow> Section \<Rightarrow> SectionMap" where
  "addSection sectionMap section =
     (case sectionMap (s_name section) of
        Some secs \<Rightarrow> sectionMap(s_name section \<mapsto> secs @ [section])
      | None \<Rightarrow> sectionMap(s_name section \<mapsto> [section]))"

text \<open>
  One section header, as the loop body of \<open>PEParser::parse\<close> reads it at \<open>base\<close>: the name
  as a C string, \<open>size\<close> from the \<open>int\<close> at \<open>+0x08\<close> (converted to \<open>size_t\<close>), \<open>start\<close> from
  the \<open>int\<close> at \<open>+0x0C\<close>, and \<open>end = start.as() + size\<close>, a \<open>size_t\<close> sum converted back to
  \<open>int\<close>.
\<close>

definition read_section :: "memory \<Rightarrow> addr \<Rightarrow> Section option" where
  "read_section m base =
     (case c_str m base of
        None \<Rightarrow> None
      | Some nm \<Rightarrow>
          (let sz = (scast (read32 m (base + 0x08)) :: 64 word);
               st = read32 m (base + 0x0C)
           in Some \<lparr>s_name = nm, s_size = sz, s_start = st,
                     s_end = ucast ((scast st :: 64 word) + sz)\<rparr>))"

fun parse_sections :: "memory \<Rightarrow> nat \<Rightarrow> addr \<Rightarrow> SectionMap \<Rightarrow> SectionMap option" where
  "parse_sections m 0 base sectionMap = Some sectionMap"
| "parse_sections m (Suc n) base sectionMap =
     (case read_section m base of
        None \<Rightarrow> None
      | Some section \<Rightarrow> parse_sections m n (base + 0x28) (addSection sectionMap section))"

text \<open>
  \<open>parse\<close> returns \<open>bool\<close> and leaves the section map in a static; the model returns
  \<open>ParseFalse\<close> for \<open>false\<close> and the map for \<open>true\<close> (\<open>None\<close> when a name read does not
  return). \<open>sectionCount\<close> is a \<open>short\<close>: the loop \<open>for (int i = 0; i < sectionCount; i++)\<close>
  runs \<open>nat (sint sectionCount)\<close> times. The optional-header size is a \<open>short\<close> too,
  promoted to \<open>int\<close> before \<open>0x18\<close> is added.
\<close>

datatype parse_result = ParseFalse | Parsed SectionMap

definition parse :: "memory \<Rightarrow> ProcessInfo \<Rightarrow> parse_result option" where
  "parse m pInfo =
     (let base = lpBaseOfDll pInfo in
      if base = 0 \<or> read16 m base \<noteq> 0x5A4D then Some ParseFalse
      else
        (let base1 = base + scast (read32 m (base + 0x3C)) in
         if read32 m base1 \<noteq> 0x4550 then Some ParseFalse
         else
           (let sectionCount = read16 m (base1 + 0x06);
                base2 = base1 + scast ((scast (read16 m (base1 + 0x14)) :: 32 word) + 0x18)
            in map_option Parsed
                 (parse_sections m (nat (sint sectionCount)) base2 Map.empty))))"

definition isAddressInSection :: "addr \<Rightarrow> addr \<Rightarrow> PESections \<Rightarrow> bool" where
  "isAddressInSection base address sections =
     list_ex (\<lambda>section. ibo32_as (s_start section) base \<le> address
                       \<and> address < ibo32_as (s_end section) base) sections"

definition isIbo32InSection :: "ibo32 \<Rightarrow> PESections \<Rightarrow> bool" where
  "isIbo32InSection ibo sections =
     list_ex (\<lambda>section. s_start section \<le>s ibo \<and> ibo <s s_end section) sections"

section \<open>RTTIScanner\<close>

record RTTI =
  pVirtualFunctionTable :: addr
  pCompleteObjectLocator :: addr
  pTypeDescriptor :: addr
  pClassHierarchyDescriptor :: addr
  pBaseClassDescriptor :: addr

record SectionData =
  sd_text :: PESections
  sd_data :: PESections
  sd_rdata :: PESections

type_synonym classRTTI = "cpp_string \<rightharpoonup> RTTI"

text \<open>\<open>std::unordered_map::emplace\<close> inserts only when the key is absent.\<close>

definition emplace :: "classRTTI \<Rightarrow> cpp_string \<Rightarrow> RTTI \<Rightarrow> classRTTI" where
  "emplace cr nm rtti = (case cr nm of None \<Rightarrow> cr(nm \<mapsto> rtti) | Some _ \<Rightarrow> cr)"

definition getClassRTTI :: "classRTTI \<Rightarrow> cpp_string \<Rightarrow> RTTI option" where
  "getClassRTTI cr nm = cr nm"

text \<open>
  \<open>demangleName\<close>: skip one leading dot, then hand the C string to the host's
  \<open>UnDecorateSymbolName\<close>, here the parameter \<open>und\<close> (\<open>None\<close> for its return value 0,
  which makes \<open>demangleName\<close> return the empty string).
\<close>

definition demangleName :: "(cpp_string \<Rightarrow> cpp_string option) \<Rightarrow> memory \<Rightarrow> addr \<Rightarrow> cpp_string option" where
  "demangleName und m nm =
     (let nm' = (if m nm = 0x2E then nm + 1 else nm) in
      case c_str m nm' of
        None \<Rightarrow> None
      | Some s \<Rightarrow> (case und s of None \<Rightarrow> Some [] | Some out \<Rightarrow> Some out))"

definition setSectionData :: "SectionMap \<Rightarrow> SectionData option" where
  "setSectionData sm =
     (case (getSectionsWithName sm (str ''.text''), getSectionsWithName sm (str ''.data''),
            getSectionsWithName sm (str ''.rdata'')) of
        (Some t, Some d, Some r) \<Rightarrow> Some \<lparr>sd_text = t, sd_data = d, sd_rdata = r\<rparr>
      | _ \<Rightarrow> None)"

text \<open>
  The checks both scan strategies run on a candidate \<open>CompleteObjectLocator* COL\<close> with
  its VFT pointer \<open>pVFT\<close>, from \<open>COL->signature != 1\<close> to \<open>name.empty()\<close>. The result is
  \<open>Some None\<close> where the source says \<open>continue\<close>, and \<open>Some (Some (name, rtti))\<close> with the
  arguments of \<open>classRTTI.emplace\<close> otherwise.
\<close>

definition validate ::
  "(cpp_string \<Rightarrow> cpp_string option) \<Rightarrow> memory \<Rightarrow> addr \<Rightarrow> SectionData \<Rightarrow> addr \<Rightarrow> addr
     \<Rightarrow> (cpp_string \<times> RTTI) option option" where
  "validate und m base sd COL pVFT =
     (if read32 m COL \<noteq> 1 then Some None
      else if \<not> isIbo32InSection (read32 m (COL + 12)) (sd_data sd) then Some None
      else if \<not> isIbo32InSection (read32 m (COL + 16)) (sd_rdata sd) then Some None
      else
        (let TD = ibo32_as (read32 m (COL + 12)) base;
             CHD = ibo32_as (read32 m (COL + 16)) base
         in if \<not> isIbo32InSection (read32 m (CHD + 12)) (sd_rdata sd) then Some None
            else
              (let pBCD = ibo32_as (read32 m (CHD + 12)) base in
               case demangleName und m (TD + 16) of
                 None \<Rightarrow> None
               | Some nm \<Rightarrow>
                   if nm = [] then Some None
                   else Some (Some (nm, \<lparr>pVirtualFunctionTable = pVFT,
                                          pCompleteObjectLocator = COL,
                                          pTypeDescriptor = TD,
                                          pClassHierarchyDescriptor = CHD,
                                          pBaseClassDescriptor = pBCD\<rparr>)))))"

text \<open>
  The \<open>.rdata\<close> pointer sweep of \<open>RTTIScanner::scan\<close> (the scanner of the example), for
  one section: \<open>while (pCOL++ < end)\<close> compares, then advances; \<open>*(++pCOL)\<close> advances
  again before the \<open>.text\<close> check, and every \<open>continue\<close> keeps the advanced pointer.
\<close>

partial_function (option) sweep ::
  "(cpp_string \<Rightarrow> cpp_string option) \<Rightarrow> memory \<Rightarrow> addr \<Rightarrow> SectionData \<Rightarrow> addr \<Rightarrow> addr
     \<Rightarrow> classRTTI \<Rightarrow> classRTTI option" where
  "sweep und m base sd pCOL end' cr =
     (if pCOL < end' then
        (let p1 = pCOL + 8; COL = read64 m p1 in
         if \<not> isAddressInSection base COL (sd_rdata sd) then sweep und m base sd p1 end' cr
         else
           (let p2 = p1 + 8 in
            if \<not> isAddressInSection base (read64 m p2) (sd_text sd)
            then sweep und m base sd p2 end' cr
            else
              (case validate und m base sd COL p2 of
                 None \<Rightarrow> None
               | Some None \<Rightarrow> sweep und m base sd p2 end' cr
               | Some (Some (nm, rtti)) \<Rightarrow> sweep und m base sd p2 end' (emplace cr nm rtti))))
      else Some cr)"

fun sweep_sections ::
  "(cpp_string \<Rightarrow> cpp_string option) \<Rightarrow> memory \<Rightarrow> addr \<Rightarrow> SectionData \<Rightarrow> PESections
     \<Rightarrow> classRTTI \<Rightarrow> classRTTI option" where
  "sweep_sections und m base sd [] cr = Some cr"
| "sweep_sections und m base sd (section # rest) cr =
     (case sweep und m base sd (ibo32_as (s_start section) base)
             (ibo32_as (s_end section) base) cr of
        None \<Rightarrow> None
      | Some cr' \<Rightarrow> sweep_sections und m base sd rest cr')"

text \<open>
  \<open>scan\<close> of the example: \<open>classRTTI\<close> is a static map, so a scan adds to what earlier
  scans left (\<open>cr\<close>).
\<close>

datatype scan_result = ScanFalse | Scanned classRTTI

definition scan ::
  "(cpp_string \<Rightarrow> cpp_string option) \<Rightarrow> memory \<Rightarrow> ProcessInfo \<Rightarrow> classRTTI \<Rightarrow> scan_result option" where
  "scan und m pInfo cr =
     (case parse m pInfo of
        None \<Rightarrow> None
      | Some ParseFalse \<Rightarrow> Some ScanFalse
      | Some (Parsed sm) \<Rightarrow>
          (case setSectionData sm of
             None \<Rightarrow> Some ScanFalse
           | Some sd \<Rightarrow>
               map_option Scanned
                 (sweep_sections und m (lpBaseOfDll pInfo) sd (sd_rdata sd) cr)))"

text \<open>
  The constructor-pattern scanner (\<open>RTTIScanner.h\<close>), from a confirmed 16-byte pattern
  match on: \<open>cur\<close> (\<open>curr\<close> in the source) is one past the first byte of the \<open>lea\<close>,
  \<open>inst = curr - 1\<close>, and the
  packed \<open>InstructionEncoding\<close> has \<open>leaRexPrefix\<close> at 0, \<open>leaOperands\<close> at 2, \<open>RIPOffset\<close>
  at 3, \<open>movRexPrefix\<close> at 7, \<open>movOperands\<close> at 9 and \<open>movExtraOp\<close> at 10.
\<close>

definition on_match ::
  "(cpp_string \<Rightarrow> cpp_string option) \<Rightarrow> memory \<Rightarrow> addr \<Rightarrow> SectionData \<Rightarrow> addr
     \<Rightarrow> classRTTI \<Rightarrow> classRTTI option" where
  "on_match und m base sd cur cr =
     (let inst = cur - 1;
          leaRexPrefix = m inst; leaOperands = m (inst + 2);
          RIPOffset = read32 m (inst + 3);
          movRexPrefix = m (inst + 7); movOperands = m (inst + 9);
          movExtraOp = m (inst + 10)
      in if movOperands AND 0x07 = 0x05 \<and> (movOperands AND 0x40 = 0 \<or> movExtraOp \<noteq> 0)
         then Some cr
         else if leaRexPrefix AND 0x04 \<noteq> movRexPrefix AND 0x04 then Some cr
         else if (leaOperands XOR movOperands) AND 0x38 \<noteq> 0 then Some cr
         else
           (let pVFT = cur + scast RIPOffset + 6;
                ppCOL = cur + scast RIPOffset - 2
            in if \<not> isAddressInSection base ppCOL (sd_rdata sd) then Some cr
               else
                 (let pCOL = read64 m ppCOL in
                  if \<not> isAddressInSection base pCOL (sd_rdata sd) then Some cr
                  else
                    (case validate und m base sd pCOL pVFT of
                       None \<Rightarrow> None
                     | Some None \<Rightarrow> Some cr
                     | Some (Some (nm, rtti)) \<Rightarrow> Some (emplace cr nm rtti)))))"

section \<open>VFTHook\<close>

text \<open>
  A hook is one allocation holding a header (\<open>hookData\<close>) followed by the trampoline
  code (\<open>asmRaw\<close>). The repository has two families of hooks with the same install and
  uninstall code over different headers:
  \<^item> \<open>VFTHook\<close> with \<open>HookLayout::HookData\<close>: \<open>magic\<close> at 0, \<open>mutex\<close> (a \<open>shared_ptr\<close>, two
    pointers) at 8, \<open>previous\<close> at 24, \<open>fnNew\<close> at 32, \<open>fnHooked\<close> at 40, \<open>extra\<close> at 48;
    \<open>sizeof(HookData) = 56\<close>, and \<open>asmRaw\<close> starts there;
  \<^item> \<open>VFTHookTemplate<HookType>\<close> with \<open>HookData\<close> of the hook templates: \<open>magic\<close> at 0,
    padding at 8, \<open>mutex\<close> at 16, \<open>allocator\<close> at 32, \<open>context\<close> at 40, \<open>previous\<close> at 48,
    \<open>fnNew\<close> at 56, \<open>fnHooked\<close> at 64, \<open>extra\<close> at 72; the code locates the trampoline and
    a candidate header with \<open>sizeof(HookBase)\<close>.
  A \<open>layout\<close> collects what differs. \<open>construct\<close> gives the bytes that creating the hook
  object leaves at the allocation (its argument is the \<open>HookContext\<close> the templates
  allocate).
\<close>

record layout =
  magic :: "64 word"
  off_mutex :: addr
  off_previous :: addr
  off_fnNew :: addr
  off_fnHooked :: addr
  sizeof_header :: addr
  construct :: "addr \<Rightarrow> byte list"

definition le64 :: "64 word \<Rightarrow> byte list" where
  "le64 v = le_bytes 8 (unat v)"

definition VFTHook_asmRaw :: "byte list" where
  "VFTHook_asmRaw =
    [0x48, 0x8D, 0x44, 0x24, 0xA0, 0x24, 0xF0, 0x0F, 0x29, 0x40, 0x50, 0x0F,
     0x29, 0x48, 0x40, 0x0F, 0x29, 0x50, 0x30, 0x0F, 0x29, 0x58, 0x20, 0x0F,
     0x29, 0x60, 0x10, 0x0F, 0x29, 0x28, 0x48, 0x89, 0x60, 0xF0, 0x48, 0x89,
     0x48, 0xE8, 0x48, 0x89, 0x50, 0xE0, 0x4C, 0x89, 0x40, 0xD8, 0x4C, 0x89,
     0x48, 0xD0, 0x48, 0x8D, 0x60, 0xB0, 0xFF, 0x15, 0xAC, 0xFF, 0xFF, 0xFF,
     0x48, 0x8D, 0x44, 0x24, 0x50, 0x4C, 0x8B, 0x48, 0xD0, 0x4C, 0x8B, 0x40,
     0xD8, 0x48, 0x8B, 0x50, 0xE0, 0x48, 0x8B, 0x48, 0xE8, 0x0F, 0x28, 0x28,
     0x0F, 0x28, 0x60, 0x10, 0x0F, 0x28, 0x58, 0x20, 0x0F, 0x28, 0x50, 0x30,
     0x0F, 0x28, 0x48, 0x40, 0x0F, 0x28, 0x40, 0x50, 0x48, 0x8B, 0x60, 0xF0,
     0xFF, 0x25, 0x7E, 0xFF, 0xFF, 0xFF]"


text \<open>
  \<open>VFTHook\<close> copies the static \<open>hookLayout\<close> (\<open>sizeof(HookLayout) = 176\<close>: the header, 114
  bytes of code, padding to a multiple of 8) with \<open>memcpy\<close>.
\<close>

definition VFTHook_layout :: layout where
  "VFTHook_layout =
     \<lparr>magic = 0x6B6F6F48544656, off_mutex = 8, off_previous = 24, off_fnNew = 32,
      off_fnHooked = 40, sizeof_header = 56,
      construct = (\<lambda>ctx. le64 0x6B6F6F48544656 @ replicate 48 0 @ VFTHook_asmRaw
                        @ replicate 6 0)\<rparr>"


text \<open>
  The host's answers during one call: what \<open>VirtualAlloc\<close> returns (0 on failure), the
  \<open>std::mutex\<close> and its control block that \<open>new std::mutex\<close> and the \<open>shared_ptr\<close> obtain,
  the \<open>HookContext\<close> of a template hook, and for which addresses \<open>VirtualProtect\<close> succeeds
  (to \<open>PAGE_EXECUTE_READWRITE\<close>, and back). The process state is its memory and the set
  of trampoline allocations not yet released. Locking and unlocking the chain mutex
  changes no modelled state: the model runs one call at a time.
\<close>

record os =
  VirtualAlloc :: addr
  new_mutex :: addr
  new_mutex_ctrl :: addr
  new_context :: addr
  VirtualProtect_rwx :: "addr \<Rightarrow> bool"
  VirtualProtect_restore :: "addr \<Rightarrow> bool"

record process =
  mem :: memory
  pages :: "addr set"

definition page_size :: nat where
  "page_size = 4096"

definition rdataWrite :: "os \<Rightarrow> memory \<Rightarrow> addr \<Rightarrow> addr \<Rightarrow> bool \<times> memory" where
  "rdataWrite h m pAddress pointer =
     (if \<not> VirtualProtect_rwx h pAddress then (False, m)
      else (VirtualProtect_restore h pAddress, write64 m pAddress pointer))"

text \<open>
  The first half of \<open>hook\<close>: the committed page is zero-filled, the hook object is
  created at its base, and \<open>mutex\<close>, \<open>fnHooked\<close>, \<open>previous\<close> and \<open>fnNew\<close> are set, in the
  order of the source.
\<close>

definition init_hook :: "layout \<Rightarrow> os \<Rightarrow> memory \<Rightarrow> addr \<Rightarrow> addr \<Rightarrow> addr \<Rightarrow> memory" where
  "init_hook L h m hook vftEntry function =
     (let m0 = write_bytes m hook (replicate page_size 0);
          m1 = write_bytes m0 hook (construct L (new_context h));
          m2 = write64 m1 (hook + off_mutex L) (new_mutex h);
          m3 = write64 m2 (hook + off_mutex L + 8) (new_mutex_ctrl h);
          m4 = write64 m3 (hook + off_fnHooked L) (read64 m3 vftEntry);
          m5 = write64 m4 (hook + off_previous L) vftEntry
      in write64 m5 (hook + off_fnNew L) function)"

text \<open>
  \<open>hook\<close> returns the value it leaves in \<open>this->allocationBase\<close> (0 when \<open>VirtualAlloc\<close>
  failed) and the new process state. The results of \<open>rdataWrite\<close> are discarded, as in
  the source.
\<close>

definition hook :: "layout \<Rightarrow> os \<Rightarrow> process \<Rightarrow> addr \<Rightarrow> 32 word \<Rightarrow> addr \<Rightarrow> addr \<times> process" where
  "hook L h s pVFT vftIndex function =
     (let allocationBase = VirtualAlloc h in
      if allocationBase = 0 then (0, s)
      else
        (let hook = allocationBase;
             vftEntry = pVFT + 8 * ucast vftIndex;
             m = init_hook L h (mem s) hook vftEntry function;
             prevHook = read64 m (hook + off_fnHooked L) - sizeof_header L
         in if read64 m hook = read64 m prevHook then
              (let m1 = (if read64 m (hook + off_fnHooked L) \<noteq> read64 m vftEntry
                         then write64 m (hook + off_fnHooked L) (read64 m vftEntry) else m);
                   prevHook1 = (if read64 m (hook + off_fnHooked L) \<noteq> read64 m vftEntry
                         then read64 m1 (hook + off_fnHooked L) - sizeof_header L
                         else prevHook);
                   m2 = snd (rdataWrite h m1 (prevHook1 + off_previous L) hook);
                   m3 = snd (rdataWrite h m2 vftEntry (hook + sizeof_header L))
               in (allocationBase, \<lparr>mem = m3, pages = insert allocationBase (pages s)\<rparr>))
            else
              (let m1 = (if read64 m (hook + off_fnHooked L) \<noteq> read64 m vftEntry
                         then write64 m (hook + off_fnHooked L) (read64 m vftEntry) else m);
                   m2 = snd (rdataWrite h m1 vftEntry (hook + sizeof_header L))
               in (allocationBase, \<lparr>mem = m2, pages = insert allocationBase (pages s)\<rparr>))))"

text \<open>
  The two constructors. A \<open>VFTHook\<close> object has one field, \<open>allocationBase\<close>, initially
  \<open>nullptr\<close>; the constructor by name returns without calling \<open>hook\<close> when the class is
  not in the scanner's map.
\<close>

definition VFTHook_by_name ::
  "layout \<Rightarrow> os \<Rightarrow> classRTTI \<Rightarrow> process \<Rightarrow> cpp_string \<Rightarrow> 32 word \<Rightarrow> addr \<Rightarrow> addr \<times> process" where
  "VFTHook_by_name L h cr s className vftIndex function =
     (case getClassRTTI cr className of
        None \<Rightarrow> (0, s)
      | Some pClass \<Rightarrow> hook L h s (pVirtualFunctionTable pClass) vftIndex function)"


text \<open>
  The destructor. The search for the topmost hook follows \<open>previous\<close> while the target
  starts with the same eight bytes as this hook's own \<open>magic\<close> field (\<open>hk\<close> is the
  source's \<open>hook\<close>); it need not end.
\<close>

partial_function (option) find_top :: "layout \<Rightarrow> memory \<Rightarrow> addr \<Rightarrow> addr \<Rightarrow> addr option" where
  "find_top L m hk topHook =
     (if read64 m (read64 m (topHook + off_previous L)) = read64 m hk
      then find_top L m hk (read64 m (topHook + off_previous L))
      else Some topHook)"

text \<open>
  \<open>unlink\<close> is the part of the destructor between \<open>mutex.lock()\<close> and \<open>mutex.unlock()\<close>;
  \<open>hk\<close> is the source's \<open>hook\<close>.
\<close>

definition unlink :: "layout \<Rightarrow> os \<Rightarrow> memory \<Rightarrow> addr \<Rightarrow> memory" where
  "unlink L h m hk =
     (let nextHook = read64 m (hk + off_fnHooked L) - sizeof_header L;
          prevHook = read64 m (hk + off_previous L);
          m1 = (if read64 m hk = read64 m nextHook
                then snd (rdataWrite h m (nextHook + off_previous L) prevHook)
                else m)
      in if read64 m1 hk = read64 m1 prevHook
         then snd (rdataWrite h m1 (prevHook + off_fnHooked L)
                     (read64 m1 (hk + off_fnHooked L)))
         else snd (rdataWrite h m1 prevHook (read64 m1 (hk + off_fnHooked L))))"

definition destroy :: "layout \<Rightarrow> os \<Rightarrow> process \<Rightarrow> addr \<Rightarrow> process option" where
  "destroy L h s allocationBase =
     (if allocationBase = 0 then Some s
      else
        (case find_top L (mem s) allocationBase allocationBase of
           None \<Rightarrow> None
         | Some topHook \<Rightarrow>
             Some \<lparr>mem = unlink L h (mem s) allocationBase,
                   pages = pages s - {allocationBase}\<rparr>))"

text \<open>Destroying several handles, one after the other.\<close>

fun destroy_all :: "layout \<Rightarrow> os \<Rightarrow> process \<Rightarrow> addr list \<Rightarrow> process option" where
  "destroy_all L h s [] = Some s"
| "destroy_all L h s (x # xs) =
     (case destroy L h s x of None \<Rightarrow> None | Some s' \<Rightarrow> destroy_all L h s' xs)"

section \<open>Chains of hooks\<close>

text \<open>
  The hooks \<open>hs\<close> (allocation bases, the most recently installed first) form a chain on
  the VFT slot \<open>slot\<close> over the original function \<open>F0\<close>: the slot holds the address of the
  first hook's trampoline; each hook starts with the magic, its \<open>previous\<close> is the hook
  before it in the list (the slot itself for the first), its \<open>fnHooked\<close> is the
  trampoline of the hook after it (\<open>F0\<close> for the last). With no hooks the slot holds
  \<open>F0\<close>.
\<close>

fun routes :: "layout \<Rightarrow> memory \<Rightarrow> addr \<Rightarrow> addr \<Rightarrow> addr list \<Rightarrow> addr \<Rightarrow> bool" where
  "routes L m entry up [] F0 = (entry = F0)"
| "routes L m entry up (x # xs) F0 =
     (entry = x + sizeof_header L \<and> read64 m x = magic L
      \<and> read64 m (x + off_previous L) = up
      \<and> routes L m (read64 m (x + off_fnHooked L)) x xs F0)"

definition chain :: "layout \<Rightarrow> memory \<Rightarrow> addr \<Rightarrow> addr list \<Rightarrow> addr \<Rightarrow> bool" where
  "chain L m slot hs F0 = routes L m (read64 m slot) slot hs F0"

text \<open>
  Where the pieces lie: the pages of the hooks are distinct, not at address 0, and share
  no byte with each other, with the slot, or with the eight bytes that the code reads as
  the magic of a hook in front of \<open>F0\<close>; the slot does not overlap those eight bytes
  either; and no trampoline address equals the magic.
\<close>

definition placed :: "layout \<Rightarrow> addr \<Rightarrow> addr list \<Rightarrow> addr \<Rightarrow> bool" where
  "placed L slot hs F0 =
     (distinct hs
      \<and> list_all (\<lambda>x. x \<noteq> 0 \<and> sep x page_size slot 8
                      \<and> sep x page_size (F0 - sizeof_header L) 8
                      \<and> x + sizeof_header L \<noteq> magic L
                      \<and> list_all (\<lambda>y. x = y \<or> sep x page_size y page_size) hs) hs
      \<and> sep slot 8 (F0 - sizeof_header L) 8)"

text \<open>
  What the proofs use of a layout: the constructor's bytes fit the page and start with
  the magic, and the header fields lie in the page without overlapping.
\<close>

definition wf_layout :: "layout \<Rightarrow> bool" where
  "wf_layout L =
     ((\<forall>ctx. length (construct L ctx) \<le> page_size
             \<and> take 8 (construct L ctx) = le64 (magic L))
      \<and> unat (off_mutex L) + 16 \<le> page_size
      \<and> unat (off_previous L) + 8 \<le> page_size
      \<and> unat (off_fnNew L) + 8 \<le> page_size
      \<and> unat (off_fnHooked L) + 8 \<le> page_size
      \<and> sep 0 8 (off_mutex L) 16
      \<and> sep 0 8 (off_previous L) 8
      \<and> sep 0 8 (off_fnNew L) 8
      \<and> sep 0 8 (off_fnHooked L) 8
      \<and> sep (off_mutex L) 16 (off_previous L) 8
      \<and> sep (off_mutex L) 16 (off_fnNew L) 8
      \<and> sep (off_mutex L) 16 (off_fnHooked L) 8
      \<and> sep (off_previous L) 8 (off_fnNew L) 8
      \<and> sep (off_previous L) 8 (off_fnHooked L) 8
      \<and> sep (off_fnNew L) 8 (off_fnHooked L) 8)"

section \<open>Sample images\<close>

text \<open>
  Concrete process images on which the model is run. \<open>pe_image\<close> is a module at
  \<open>0x140000000\<close>: \<open>MZ\<close>, \<open>e_lfanew = 0x80\<close>, the PE signature, one section, no optional
  header, and one section header at \<open>0x98\<close> with the given name bytes, virtual size and
  virtual address.

  \<open>rtti_image\<close> holds, in a \<open>.rdata\<close> section \<open>[0x2000, 0x2060)\<close> of the same module, five
  pointer slots with the given values, a \<open>CompleteObjectLocator\<close> at \<open>0x2028\<close>
  (\<open>signature = 1\<close>, type descriptor at \<open>0x3000\<close>, class hierarchy descriptor at \<open>0x2040\<close>),
  that class hierarchy descriptor (base class array at \<open>0x2050\<close>), and in \<open>.data\<close> a type
  descriptor whose name is \<open>.?AVFoo@@\<close>. \<open>undname\<close> demangles that one name.
\<close>

definition zero_memory :: memory where
  "zero_memory = (\<lambda>_. 0)"

definition pe_image :: "cpp_string \<Rightarrow> 32 word \<Rightarrow> 32 word \<Rightarrow> memory" where
  "pe_image nm vsize vaddr =
     write32 (write32 (write_bytes
       (write16 (write32 (write32 (write16 zero_memory 0x140000000 0x5A4D)
            0x14000003C 0x80) 0x140000080 0x4550) 0x140000086 1)
       0x140000098 nm) 0x1400000A0 vsize) 0x1400000A4 vaddr"

definition rtti_sections :: SectionData where
  "rtti_sections =
     \<lparr>sd_text = [\<lparr>s_name = str ''.text'', s_size = 0x1000, s_start = 0x1000, s_end = 0x2000\<rparr>],
      sd_data = [\<lparr>s_name = str ''.data'', s_size = 0x1000, s_start = 0x3000, s_end = 0x4000\<rparr>],
      sd_rdata = [\<lparr>s_name = str ''.rdata'', s_size = 0x60, s_start = 0x2000, s_end = 0x2060\<rparr>]\<rparr>"

definition rtti_image :: "addr \<Rightarrow> addr \<Rightarrow> addr \<Rightarrow> addr \<Rightarrow> addr \<Rightarrow> memory" where
  "rtti_image v0 v1 v2 v3 v4 =
     write_bytes
      (write32 (write32 (write32 (write32 (write32
        (write64 (write64 (write64 (write64 (write64 zero_memory
           0x140002000 v0) 0x140002008 v1) 0x140002010 v2) 0x140002018 v3) 0x140002020 v4)
        0x140002028 1) 0x140002034 0x3000) 0x140002038 0x2040)
        0x140002048 1) 0x14000204C 0x2050)
      0x140003010 (str ''.?AVFoo@@'' @ [0])"

definition undname :: "cpp_string \<Rightarrow> cpp_string option" where
  "undname s = (if s = str ''?AVFoo@@'' then Some (str ''Foo'') else None)"

definition Foo_rtti :: "addr \<Rightarrow> RTTI" where
  "Foo_rtti pVFT =
     \<lparr>pVirtualFunctionTable = pVFT, pCompleteObjectLocator = 0x140002028,
      pTypeDescriptor = 0x140003000, pClassHierarchyDescriptor = 0x140002040,
      pBaseClassDescriptor = 0x140002050\<rparr>"

text \<open>
  A host on which everything succeeds: \<open>VirtualAlloc\<close> returns \<open>a\<close>, every
  \<open>VirtualProtect\<close> call succeeds. \<open>protect_failing_at a F\<close> is the same host with
  \<open>VirtualProtect\<close> failing for the addresses in \<open>F\<close> and succeeding for all others.
  \<open>idle\<close> is a process with zeroed memory and no trampoline page.
\<close>

definition sample_os :: "addr \<Rightarrow> os" where
  "sample_os a =
     \<lparr>VirtualAlloc = a, new_mutex = 0x2A0000001000, new_mutex_ctrl = 0x2A0000001040,
      new_context = 0x2A0000002000,
      VirtualProtect_rwx = (\<lambda>_. True), VirtualProtect_restore = (\<lambda>_. True)\<rparr>"


definition idle :: process where
  "idle = \<lparr>mem = zero_memory, pages = {}\<rparr>"

text \<open>
  \<open>unhooked\<close> is a process whose VFT at \<open>0x140002000\<close> holds, in slot 20 (address
  \<open>0x1400020A0\<close>), the original function \<open>0x140001000\<close>; no hook is installed.
\<close>

definition unhooked :: process where
  "unhooked = \<lparr>mem = write64 zero_memory 0x1400020A0 0x140001000, pages = {}\<rparr>"

text \<open>
  \<open>PlayerIns_index\<close> is a class map in which \<open>CS::PlayerIns\<close> resolves to the VFT at
  \<open>0x140002000\<close>. \<open>hooked_once\<close>, \<open>hooked_twice\<close> and \<open>hooked_thrice\<close> are the unhooked
  process after one, two and three installs on slot 20.
\<close>

definition PlayerIns_index :: classRTTI where
  "PlayerIns_index =
     [str ''CS::PlayerIns'' \<mapsto>
        \<lparr>pVirtualFunctionTable = 0x140002000, pCompleteObjectLocator = 0x140002500,
         pTypeDescriptor = 0x140003000, pClassHierarchyDescriptor = 0x140002540,
         pBaseClassDescriptor = 0x140002550\<rparr>]"

definition hooked_once :: process where
  "hooked_once =
     snd (hook VFTHook_layout (sample_os 0x7FF000010000) unhooked 0x140002000 20 0x7FFB00001000)"

definition hooked_twice :: process where
  "hooked_twice =
     snd (hook VFTHook_layout (sample_os 0x7FF000020000) hooked_once 0x140002000 20
            0x7FFB00002000)"

definition hooked_thrice :: process where
  "hooked_thrice =
     snd (hook VFTHook_layout (sample_os 0x7FF000030000) hooked_twice 0x140002000 20
            0x7FFB00003000)"


section \<open>Loads and stores\<close>

lemma length_le_bytes [simp]: "length (le_bytes n v) = n"
  by (induction n arbitrary: v) auto

lemma le_val_le_bytes: "le_val (le_bytes n v) = v mod 256 ^ n"
proof (induction n arbitrary: v)
  case 0 then show ?case by simp
next
  case (Suc n)
  have "unat (of_nat (v mod 256) :: byte) = v mod 256"
    by (simp add: unat_of_nat)
  then show ?case using Suc
    by (simp add: mod_mult2_eq)
qed

lemma unat_lt64: "unat (x::addr) < 18446744073709551616"
  using unsigned_less [of x, where 'a = nat] by simp

lemma unat_diff_sum:
  fixes a b :: addr
  assumes "a \<noteq> b"
  shows "unat (a - b) + unat (b - a) = 2 ^ 64"
proof -
  have "unat a \<noteq> unat b" using assms by (simp add: word_unat_eq_iff)
  then show ?thesis
    using unat_lt64 [of a] unat_lt64 [of b]
    by (simp add: unat_sub_if')
qed

lemma sep_offset:
  assumes "sep a n b k" "i < k"
  shows "n \<le> unat (b + of_nat i - a)"
proof -
  have ne: "a \<noteq> b" using assms by (auto simp: sep_def)
  have s: "unat (a - b) + unat (b - a) = 2 ^ 64" by (rule unat_diff_sum [OF ne])
  have lt: "unat (b - a) + i < 2 ^ 64" using assms s by (simp add: sep_def)
  then have "i < 2 ^ 64" by simp
  then have ui: "unat (of_nat i :: addr) = i" by (simp add: unat_of_nat)
  have e: "b + of_nat i - a = (b - a) + of_nat i" by simp
  have "unat ((b - a) + of_nat i) = unat (b - a) + i"
    using lt ui by (simp add: unat_plus_if')
  moreover have "n \<le> unat (b - a)" using assms by (simp add: sep_def)
  ultimately show ?thesis by (simp only: e)
qed

lemma bytes_at_write_bytes_sep:
  assumes "sep a (length bs) b k"
  shows "bytes_at (write_bytes m a bs) b k = bytes_at m b k"
proof -
  have "\<And>i. i < k \<Longrightarrow> \<not> unat (b + of_nat i - a) < length bs"
    using sep_offset [OF assms] by (simp add: not_less)
  then show ?thesis
    unfolding bytes_at_def write_bytes_def by simp
qed

lemma bytes_at_write_bytes_same:
  assumes "length bs < 2 ^ 64"
  shows "bytes_at (write_bytes m a bs) a (length bs) = bs"
proof (rule nth_equalityI)
  show "length (bytes_at (write_bytes m a bs) a (length bs)) = length bs"
    by (simp add: bytes_at_def)
next
  fix i assume "i < length (bytes_at (write_bytes m a bs) a (length bs))"
  then have i: "i < length bs" by (simp add: bytes_at_def)
  then have "unat (of_nat i :: addr) = i" using assms by (simp add: unat_of_nat)
  then show "bytes_at (write_bytes m a bs) a (length bs) ! i = bs ! i"
    using i by (simp add: bytes_at_def write_bytes_def)
qed

lemma read64_write64_same: "read64 (write64 m a v) a = v"
proof -
  have "bytes_at (write_bytes m a (le_bytes 8 (unat v))) a (length (le_bytes 8 (unat v))) = le_bytes 8 (unat v)"
    by (rule bytes_at_write_bytes_same) simp
  then have "bytes_at (write64 m a v) a 8 = le_bytes 8 (unat v)"
    by (simp add: write64_def)
  moreover have "unat v mod 256 ^ 8 = unat v"
    using unsigned_less [of v, where 'a = nat] by simp
  ultimately show ?thesis
    by (simp add: read64_def le_val_le_bytes)
qed

lemma read64_write64_sep: "sep a 8 b 8 \<Longrightarrow> read64 (write64 m a v) b = read64 m b"
  by (simp add: read64_def write64_def bytes_at_write_bytes_sep)

lemma read64_write_bytes_sep: "sep a (length bs) b 8 \<Longrightarrow> read64 (write_bytes m a bs) b = read64 m b"
  by (simp add: read64_def bytes_at_write_bytes_sep)

section \<open>The class map\<close>

lemma emplace_keeps: "cr nm = Some r \<Longrightarrow> emplace cr nm' r' nm = Some r"
  by (auto simp: emplace_def split: option.splits)

lemma sweep_keeps_aux:
  assumes "sweep und m base sd p e cr = Some cr'"
  shows "cr nm = Some r \<longrightarrow> cr' nm = Some r"
  apply (rule sweep.raw_induct [where P = "\<lambda>und m base sd p e cr cr'. cr nm = Some r \<longrightarrow> cr' nm = Some r", OF _ assms])
  apply (simp only: Let_def split: if_splits option.splits prod.splits)
   apply (auto simp: emplace_keeps)
  done

lemma on_match_keeps:
  "on_match und m base sd cur cr = Some cr' \<Longrightarrow> cr nm = Some r \<Longrightarrow> cr' nm = Some r"
  by (auto simp: on_match_def Let_def emplace_keeps split: if_splits option.splits prod.splits)

lemma sweep_sections_keeps:
  "sweep_sections und m base sd secs cr = Some cr' \<Longrightarrow> cr nm = Some r \<Longrightarrow> cr' nm = Some r"
proof (induction secs arbitrary: cr)
  case Nil then show ?case by simp
next
  case (Cons s secs)
  then show ?case
    by (auto split: option.splits dest: sweep_keeps_aux [THEN mp])
qed

section \<open>Running the scanner on the sample image\<close>

lemma bytes_at_zero: "bytes_at zero_memory a n = replicate n 0"
  by (simp add: bytes_at_def zero_memory_def map_replicate_const)

lemma le_val_replicate0: "le_val (replicate n 0) = 0"
  by (induction n) auto

lemma bytes_at_write_bytes_eq:
  "length bs = k \<Longrightarrow> k < 2 ^ 64 \<Longrightarrow> bytes_at (write_bytes m a bs) a k = bs"
  using bytes_at_write_bytes_same [of bs m a] by simp

lemmas rw_defs = read16_def read32_def read64_def write16_def write32_def write64_def

lemma le_bytes_numeral:
  "le_bytes (numeral k) v = of_nat (v mod 256) # le_bytes (pred_numeral k) (v div 256)"
  by (simp add: numeral_eq_Suc [of k])

lemma wb_apply: "write_bytes m a bs x = (if unat (x - a) < length bs then bs ! unat (x - a) else m x)"
  by (simp add: write_bytes_def)

lemma bytes_at_Suc: "bytes_at m a (Suc n) = m a # bytes_at m (a + 1) n"
proof -
  have "[0..<Suc n] = 0 # map Suc [0..<n]"
    by (simp add: upt_conv_Cons map_Suc_upt del: upt_Suc)
  then show ?thesis
    by (simp add: bytes_at_def comp_def add.assoc del: upt_Suc)
qed

lemma c_str_bytes:
  "bytes_at m a (Suc (length s)) = s @ [0] \<Longrightarrow> 0 \<notin> set s \<Longrightarrow> c_str m a = Some s"
proof (induction s arbitrary: a)
  case Nil
  then have "m a = 0" by (simp add: bytes_at_Suc)
  then show ?case by (simp add: c_str.simps)
next
  case (Cons b s)
  from Cons.prems(1) have h: "m a = b" and t: "bytes_at m (a + 1) (Suc (length s)) = s @ [0]"
    by (simp_all add: bytes_at_Suc [of m a])
  have "c_str m (a + 1) = Some s"
    using Cons.IH [OF t] Cons.prems(2) by simp
  moreover have "m a \<noteq> 0" using h Cons.prems(2) by auto
  ultimately show ?case using h by (subst c_str.simps) simp
qed

lemma c_str_bytes_at:
  assumes "bytes_at m a n = s @ [0]" "0 \<notin> set s"
  shows "c_str m a = Some s"
proof -
  have "length (bytes_at m a n) = n" by (simp add: bytes_at_def)
  then have "n = Suc (length s)" using assms(1) by simp
  then show ?thesis using assms c_str_bytes by simp
qed

lemma of_nat_unat_mod64: "(of_nat (unat (v::64 word) mod 18446744073709551616) :: 64 word) = v"
  using unat_lt64 [of v] by simp

lemma bytes_at_numeral:
  "bytes_at m a (numeral k) = m a # bytes_at m (a + 1) (pred_numeral k)"
  using bytes_at_Suc [of m a "pred_numeral k"] by (simp add: numeral_eq_Suc [of k])

lemma bytes_at_0: "bytes_at m a 0 = []"
  by (simp add: bytes_at_def)

lemmas rw_eval = rw_defs bytes_at_write_bytes_eq bytes_at_write_bytes_sep sep_def bytes_at_zero le_val_replicate0 le_val_le_bytes

lemma sweep_stop: "\<not> p < e \<Longrightarrow> sweep und m base sd p e cr = Some cr"
  by (subst sweep.simps) simp

lemma sweep_skip:
  "p < e \<Longrightarrow> \<not> isAddressInSection base (read64 m (p + 8)) (sd_rdata sd)
     \<Longrightarrow> sweep und m base sd p e cr = sweep und m base sd (p + 8) e cr"
  by (subst sweep.simps) (simp add: Let_def)

lemma sweep_skip_text:
  "p < e \<Longrightarrow> isAddressInSection base (read64 m (p + 8)) (sd_rdata sd)
     \<Longrightarrow> \<not> isAddressInSection base (read64 m (p + 16)) (sd_text sd)
     \<Longrightarrow> sweep und m base sd p e cr = sweep und m base sd (p + 16) e cr"
  by (subst sweep.simps) (simp add: Let_def add.assoc)

lemma sweep_take:
  "p < e \<Longrightarrow> isAddressInSection base (read64 m (p + 8)) (sd_rdata sd)
     \<Longrightarrow> isAddressInSection base (read64 m (p + 16)) (sd_text sd)
     \<Longrightarrow> validate und m base sd (read64 m (p + 8)) (p + 16) = Some (Some (nm, rtti))
     \<Longrightarrow> sweep und m base sd p e cr = sweep und m base sd (p + 16) e (emplace cr nm rtti)"
  by (subst sweep.simps) (simp add: Let_def add.assoc)

lemma rtti_image_slots:
  "read64 (rtti_image v0 v1 v2 v3 v4) 0x140002000 = v0"
  "read64 (rtti_image v0 v1 v2 v3 v4) 0x140002008 = v1"
  "read64 (rtti_image v0 v1 v2 v3 v4) 0x140002010 = v2"
  "read64 (rtti_image v0 v1 v2 v3 v4) 0x140002018 = v3"
  "read64 (rtti_image v0 v1 v2 v3 v4) 0x140002020 = v4"
  by (simp_all add: rtti_image_def rw_eval str_def of_nat_unat_mod64)

lemma rtti_image_fields:
  "read32 (rtti_image v0 v1 v2 v3 v4) 0x140002028 = 1"
  "read32 (rtti_image v0 v1 v2 v3 v4) 0x140002034 = 0x3000"
  "read32 (rtti_image v0 v1 v2 v3 v4) 0x140002038 = 0x2040"
  "read32 (rtti_image v0 v1 v2 v3 v4) 0x14000204C = 0x2050"
  by (simp_all add: rtti_image_def rw_eval str_def)

lemma le_val_append: "le_val (xs @ ys) = le_val xs + 256 ^ length xs * le_val ys"
  by (induction xs) (auto simp: algebra_simps)

lemma bytes_at_add: "bytes_at m a (n + k) = bytes_at m a n @ bytes_at m (a + of_nat n) k"
proof (induction n arbitrary: a)
  case 0 then show ?case by (simp add: bytes_at_0)
next
  case (Suc n)
  show ?case using Suc [of "a + 1"] by (simp add: bytes_at_Suc add.assoc)
qed

lemma le_val_bound: "le_val bs < 256 ^ length bs"
proof (induction bs)
  case Nil then show ?case by simp
next
  case (Cons b bs)
  have "unat b < 256" using unsigned_less [of b, where 'a = nat] by simp
  moreover have "le_val bs + 1 \<le> 256 ^ length bs" using Cons by simp
  then have "256 * (le_val bs + 1) \<le> 256 * 256 ^ length bs" by (rule mult_le_mono2)
  ultimately show ?case by simp
qed

lemma read64_halves:
  "read64 m a = of_nat (unat (read32 m a) + 4294967296 * unat (read32 m (a + 4)))"
proof -
  have b: "bytes_at m a 8 = bytes_at m a 4 @ bytes_at m (a + 4) 4"
    using bytes_at_add [of m a 4 4] by simp
  have l: "\<And>x. le_val (bytes_at m x 4) < 4294967296"
    using le_val_bound [of "bytes_at m x 4" for x] by (simp add: bytes_at_def)
  have u: "\<And>x. unat (read32 m x) = le_val (bytes_at m x 4)"
    using l by (simp add: read32_def unat_of_nat)
  have len: "length (bytes_at m a 4) = 4" by (simp add: bytes_at_def)
  show ?thesis
    by (simp add: read64_def b le_val_append u len)
qed

lemma rtti_image_rest:
  "read64 (rtti_image v0 v1 v2 v3 v4) 0x140002028 = 1"
  "read64 (rtti_image v0 v1 v2 v3 v4) 0x140002030 = 0x300000000000"
  "read64 (rtti_image v0 v1 v2 v3 v4) 0x140002038 = 0x2040"
  "read64 (rtti_image v0 v1 v2 v3 v4) 0x140002040 = 0"
  "read64 (rtti_image v0 v1 v2 v3 v4) 0x140002048 = 0x205000000001"
  "read64 (rtti_image v0 v1 v2 v3 v4) 0x140002050 = 0"
  "read64 (rtti_image v0 v1 v2 v3 v4) 0x140002058 = 0"
  "read64 (rtti_image v0 v1 v2 v3 v4) 0x140002060 = 0"
  by (simp_all add: read64_halves rtti_image_def rw_eval str_def)

lemma rtti_image_name:
  "c_str (rtti_image v0 v1 v2 v3 v4) 0x140003011 = Some (str ''?AVFoo@@'')"
  "rtti_image v0 v1 v2 v3 v4 0x140003010 = 0x2E"
proof -
  have "bytes_at (rtti_image v0 v1 v2 v3 v4) 0x140003010 10 = str ''.?AVFoo@@'' @ [0]"
    by (simp add: rtti_image_def bytes_at_write_bytes_eq str_def)
  then have "bytes_at (rtti_image v0 v1 v2 v3 v4) 0x140003011 9 = str ''?AVFoo@@'' @ [0]"
    and b: "rtti_image v0 v1 v2 v3 v4 0x140003010 = 0x2E"
    by (simp_all add: bytes_at_numeral [of _ "0x140003010"] str_def)
  then show "c_str (rtti_image v0 v1 v2 v3 v4) 0x140003011 = Some (str ''?AVFoo@@'')"
    by (intro c_str_bytes_at [where n = 9]) (simp_all add: str_def)
  show "rtti_image v0 v1 v2 v3 v4 0x140003010 = 0x2E" by (rule b)
qed

lemma rtti_sections_in:
  "isAddressInSection 0x140000000 x (sd_rdata rtti_sections)
     = (0x140002000 \<le> unat x \<and> unat x < 0x140002060)"
  "isAddressInSection 0x140000000 x (sd_text rtti_sections)
     = (0x140001000 \<le> unat x \<and> unat x < 0x140002000)"
  by (simp_all add: isAddressInSection_def rtti_sections_def ibo32_as_def
        word_le_nat_alt word_less_nat_alt)

lemma validate_Foo:
  "validate undname (rtti_image v0 v1 v2 v3 v4) 0x140000000 rtti_sections 0x140002028 pVFT
     = Some (Some (str ''Foo'', Foo_rtti pVFT))"
  by (simp add: validate_def rtti_image_fields isIbo32InSection_def rtti_sections_def ibo32_as_def
        demangleName_def rtti_image_name undname_def word_sle_eq word_sless_alt Foo_rtti_def)
     (simp add: str_def)

lemma sweep_from_third_slot:
  "sweep undname (rtti_image v0 v1 v2 0x140002028 0x140001008) 0x140000000 rtti_sections
     0x140002010 0x140002060 cr
   = Some (emplace cr (str ''Foo'') (Foo_rtti 0x140002020))"
proof -
  let ?m = "rtti_image v0 v1 v2 0x140002028 0x140001008"
  have 1: "sweep undname ?m 0x140000000 rtti_sections 0x140002010 0x140002060 cr
         = sweep undname ?m 0x140000000 rtti_sections 0x140002020 0x140002060
             (emplace cr (str ''Foo'') (Foo_rtti 0x140002020))"
    by (subst sweep_take [where nm = "str ''Foo''" and rtti = "Foo_rtti 0x140002020"])
       (simp_all add: rtti_sections_in rtti_image_slots validate_Foo)
  have 2: "sweep undname ?m 0x140000000 rtti_sections 0x140002020 0x140002060 cr' = Some cr'" for cr'
    by (simp add: sweep_skip sweep_stop rtti_sections_in rtti_image_slots rtti_image_rest)
  show ?thesis
    unfolding 1 2 by simp
qed

section \<open>Running the parser on the sample image\<close>

lemma pe_image_header:
  assumes "length nm \<le> 8"
  shows "read16 (pe_image nm vsize vaddr) 0x140000000 = 0x5A4D"
    and "read32 (pe_image nm vsize vaddr) 0x14000003C = 0x80"
    and "read32 (pe_image nm vsize vaddr) 0x140000080 = 0x4550"
    and "read16 (pe_image nm vsize vaddr) 0x140000086 = 1"
    and "read16 (pe_image nm vsize vaddr) 0x140000094 = 0"
  using assms by (simp_all add: pe_image_def rw_eval)

lemma of_nat_unat_mod32: "(of_nat (unat (v::32 word) mod 4294967296) :: 32 word) = v"
  using unsigned_less [of v, where 'a = nat] by simp

lemma pe_image_section:
  shows "read32 (pe_image nm vsize vaddr) 0x1400000A0 = vsize"
    and "read32 (pe_image nm vsize vaddr) 0x1400000A4 = vaddr"
  by (simp_all add: pe_image_def rw_eval of_nat_unat_mod32)

lemma pe_image_name_text:
  "c_str (pe_image (str ''.text'') 0x1000 0x1000) 0x140000098 = Some (str ''.text'')"
  by (rule c_str_bytes_at [where n = 6])
     (simp_all add: pe_image_def write16_def write32_def bytes_at_numeral bytes_at_Suc
        bytes_at_0 wb_apply zero_memory_def le_bytes_numeral str_def
        unsigned_minus_1_eq_mask mask_eq_exp_minus_1)

lemma pe_image_name_textbss:
  "c_str (pe_image (str ''.textbss'') 0x1234 0x1000) 0x140000098
     = Some (str ''.textbss'' @ [0x34, 0x12])"
  by (rule c_str_bytes_at [where n = 11])
     (simp_all add: pe_image_def write16_def write32_def bytes_at_numeral bytes_at_Suc
        bytes_at_0 wb_apply zero_memory_def le_bytes_numeral str_def
        unsigned_minus_1_eq_mask mask_eq_exp_minus_1)

lemma parse_pe_image_text:
  "parse (pe_image (str ''.text'') 0x1000 0x1000) \<lparr>lpBaseOfDll = 0x140000000, SizeOfImage = sz\<rparr>
     = Some (Parsed [str ''.text'' \<mapsto>
          [\<lparr>s_name = str ''.text'', s_size = 0x1000, s_start = 0x1000, s_end = 0x2000\<rparr>]])"
proof -
  have l: "length (str ''.text'') \<le> 8" by (simp add: str_def)
  have "read_section (pe_image (str ''.text'') 0x1000 0x1000) 0x140000098
      = Some \<lparr>s_name = str ''.text'', s_size = 0x1000, s_start = 0x1000, s_end = 0x2000\<rparr>"
    by (simp add: read_section_def pe_image_name_text pe_image_section)
  then show ?thesis
    by (simp add: parse_def pe_image_header [OF l] addSection_def)
qed

section \<open>Claims about the parser\<close>

text \<open>
  Claim C5 (section-table construction), evaluated on an image the parser can be given:
  one section named \<open>.textbss\<close> (eight characters, so its name field has no NUL), virtual
  size \<open>0x1234\<close>, virtual address \<open>0x1000\<close>. \<open>start\<close> is the virtual address and \<open>end\<close> is
  \<open>start\<close> plus the virtual size, but the stored name is not the eight name bytes: the
  name is read as a C string and runs on into the virtual-size field, up to its first
  zero byte.
\<close>

theorem parse_eight_byte_name:
  "parse (pe_image (str ''.textbss'') 0x1234 0x1000)
       \<lparr>lpBaseOfDll = 0x140000000, SizeOfImage = 0x400\<rparr>
     = Some (Parsed [str ''.textbss'' @ [0x34, 0x12] \<mapsto>
          [\<lparr>s_name = str ''.textbss'' @ [0x34, 0x12], s_size = 0x1234,
            s_start = 0x1000, s_end = 0x2234\<rparr>]])
   \<and> str ''.textbss'' @ [0x34, 0x12] \<noteq> str ''.textbss''"
proof -
  have l: "length (str ''.textbss'') \<le> 8" by (simp add: str_def)
  have "read_section (pe_image (str ''.textbss'') 0x1234 0x1000) 0x140000098
      = Some \<lparr>s_name = str ''.textbss'' @ [0x34, 0x12], s_size = 0x1234,
               s_start = 0x1000, s_end = 0x2234\<rparr>"
    by (simp add: read_section_def pe_image_name_textbss pe_image_section)
  then show ?thesis
    by (simp add: parse_def pe_image_header [OF l] addSection_def)
qed

text \<open>
  Claim C7 (parse errors), as stated, asks for a \<open>Truncated\<close> failure whenever a header
  offset exceeds the loaded size. On the sample image the PE header lies at offset
  \<open>0x80\<close> and the section header at \<open>0x98\<close>; with a loaded size of \<open>0x40\<close> the parse still
  succeeds.
\<close>

theorem parse_beyond_loaded_size:
  "read32 (pe_image (str ''.text'') 0x1000 0x1000) 0x14000003C = 0x80
   \<and> SizeOfImage \<lparr>lpBaseOfDll = 0x140000000, SizeOfImage = 0x40\<rparr> = 0x40
   \<and> parse (pe_image (str ''.text'') 0x1000 0x1000)
         \<lparr>lpBaseOfDll = 0x140000000, SizeOfImage = 0x40\<rparr>
       = Some (Parsed [str ''.text'' \<mapsto>
           [\<lparr>s_name = str ''.text'', s_size = 0x1000, s_start = 0x1000, s_end = 0x2000\<rparr>]])"
proof -
  have l: "length (str ''.text'') \<le> 8" by (simp add: str_def)
  show ?thesis
    by (simp add: parse_pe_image_text pe_image_header [OF l])
qed

text \<open>
  Claim C7, amended: \<open>parse\<close> has one failure value, \<open>false\<close>. It returns \<open>false\<close> exactly
  when the module base is null, the \<open>MZ\<close> signature at offset 0 mismatches, or the
  \<open>PE\0\0\<close> signature at the \<open>e_lfanew\<close> offset mismatches. The loaded size is never
  consulted: changing it changes nothing, so no offset is ever rejected as out of
  range. \<open>parse\<close> is a single pass over the headers; nothing is retried.
\<close>

theorem parse_fails_iff:
  "(parse m pInfo = Some ParseFalse) =
     (lpBaseOfDll pInfo = 0 \<or> read16 m (lpBaseOfDll pInfo) \<noteq> 0x5A4D
      \<or> read32 m (lpBaseOfDll pInfo + scast (read32 m (lpBaseOfDll pInfo + 0x3C))) \<noteq> 0x4550)
   \<and> parse m (pInfo\<lparr>SizeOfImage := sz\<rparr>) = parse m pInfo"
  by (auto simp: parse_def Let_def)

theorem parse_fails_iff_witness:
  "parse zero_memory \<lparr>lpBaseOfDll = 0x140000000, SizeOfImage = 0x400\<rparr> = Some ParseFalse
   \<and> read16 zero_memory 0x140000000 \<noteq> 0x5A4D
   \<and> parse zero_memory \<lparr>lpBaseOfDll = 0x140000000, SizeOfImage = 0\<rparr>
       = parse zero_memory \<lparr>lpBaseOfDll = 0x140000000, SizeOfImage = 0x400\<rparr>"
  using parse_fails_iff [of zero_memory "\<lparr>lpBaseOfDll = 0x140000000, SizeOfImage = 0x400\<rparr>" 0]
  by (simp add: read16_def bytes_at_zero le_val_replicate0)

section \<open>Claims about the scanner\<close>

text \<open>
  Claim C3 (stepping of the \<open>.rdata\<close> sweep), evaluated on the sample image with a
  \<open>CompleteObjectLocator\<close> pointer in the first slot of \<open>.rdata\<close> and a \<open>.text\<close> pointer in
  the second. The first slot holds an address inside \<open>.rdata\<close>, the next slot an address
  inside \<open>.text\<close>, and the locator passes every check; a sweep that examined every slot
  would record class \<open>Foo\<close>. The sweep of the source returns an empty map: its first read
  is of the second slot, because \<open>while (pCOL++ < end)\<close> advances before the slot is
  read.
\<close>

theorem sweep_misses_first_slot:
  "isAddressInSection 0x140000000
       (read64 (rtti_image 0x140002028 0x140001000 0 0 0) 0x140002000) (sd_rdata rtti_sections)
   \<and> isAddressInSection 0x140000000
       (read64 (rtti_image 0x140002028 0x140001000 0 0 0) 0x140002008) (sd_text rtti_sections)
   \<and> validate undname (rtti_image 0x140002028 0x140001000 0 0 0) 0x140000000 rtti_sections
         (read64 (rtti_image 0x140002028 0x140001000 0 0 0) 0x140002000) 0x140002008
       = Some (Some (str ''Foo'', Foo_rtti 0x140002008))
   \<and> sweep undname (rtti_image 0x140002028 0x140001000 0 0 0) 0x140000000 rtti_sections
         0x140002000 0x140002060 Map.empty = Some Map.empty"
proof -
  have "sweep undname (rtti_image 0x140002028 0x140001000 0 0 0) 0x140000000 rtti_sections
         0x140002000 0x140002060 Map.empty = Some Map.empty"
    by (simp add: sweep_skip sweep_stop rtti_sections_in rtti_image_slots rtti_image_rest)
  then show ?thesis
    by (simp add: rtti_image_slots rtti_sections_in validate_Foo)
qed

text \<open>
  Claim C8 (duplicate names). The class map is filled with \<open>emplace\<close> only. When two
  candidates carry the same name, the record of the first stays
  (\<open>emplace (emplace cr nm r1) nm r2\<close> maps \<open>nm\<close> to \<open>r1\<close>); an \<open>emplace\<close> under a name already
  present leaves the whole map as it was; and whatever either scanner does after a
  record is stored (the rest of a sweep over a section or over all sections, a pattern
  match of the constructor scan), that record is still stored unchanged when the scan
  returns.
\<close>

theorem first_candidate_retained:
  "(cr nm = None \<longrightarrow> emplace (emplace cr nm r1) nm r2 nm = Some r1)
   \<and> (cr nm = Some r \<longrightarrow> emplace cr nm r2 = cr)
   \<and> (cr nm = Some r \<longrightarrow> sweep und m base sd p e cr = Some cr' \<longrightarrow> cr' nm = Some r)
   \<and> (cr nm = Some r \<longrightarrow> sweep_sections und m base sd secs cr = Some cr' \<longrightarrow> cr' nm = Some r)
   \<and> (cr nm = Some r \<longrightarrow> on_match und m base sd cur cr = Some cr' \<longrightarrow> cr' nm = Some r)"
proof (intro conjI impI)
  assume "cr nm = None"
  then show "emplace (emplace cr nm r1) nm r2 nm = Some r1"
    by (simp add: emplace_def)
next
  assume "cr nm = Some r"
  then show "emplace cr nm r2 = cr"
    by (simp add: emplace_def)
next
  assume "cr nm = Some r" "sweep und m base sd p e cr = Some cr'"
  then show "cr' nm = Some r"
    using sweep_keeps_aux by blast
next
  assume "cr nm = Some r" "sweep_sections und m base sd secs cr = Some cr'"
  then show "cr' nm = Some r"
    using sweep_sections_keeps by blast
next
  assume "cr nm = Some r" "on_match und m base sd cur cr = Some cr'"
  then show "cr' nm = Some r"
    using on_match_keeps by blast
qed

text \<open>
  The witness runs the sweep on the sample image with the same locator in the second
  and the fourth slot: the first candidate has stored \<open>Foo\<close> with the VFT at \<open>0x2010\<close>, the
  rest of the sweep meets \<open>Foo\<close> again with the VFT at \<open>0x2020\<close>, and the stored record
  is the first.
\<close>

theorem first_candidate_retained_witness:
  "sweep undname (rtti_image 0 0x140002028 0x140001000 0x140002028 0x140001008) 0x140000000
       rtti_sections 0x140002010 0x140002060 [str ''Foo'' \<mapsto> Foo_rtti 0x140002010]
     = Some (emplace [str ''Foo'' \<mapsto> Foo_rtti 0x140002010] (str ''Foo'') (Foo_rtti 0x140002020))
   \<and> emplace [str ''Foo'' \<mapsto> Foo_rtti 0x140002010] (str ''Foo'') (Foo_rtti 0x140002020)
         (str ''Foo'') = Some (Foo_rtti 0x140002010)
   \<and> emplace [str ''Foo'' \<mapsto> Foo_rtti 0x140002010] (str ''Foo'') (Foo_rtti 0x140002020)
       = [str ''Foo'' \<mapsto> Foo_rtti 0x140002010]
   \<and> emplace (emplace Map.empty (str ''Foo'') (Foo_rtti 0x140002010)) (str ''Foo'')
         (Foo_rtti 0x140002020) (str ''Foo'') = Some (Foo_rtti 0x140002010)
   \<and> Foo_rtti 0x140002010 \<noteq> Foo_rtti 0x140002020"
  using first_candidate_retained
    [of "[str ''Foo'' \<mapsto> Foo_rtti 0x140002010]" "str ''Foo''" "Foo_rtti 0x140002010"
        "Foo_rtti 0x140002020" "Foo_rtti 0x140002010" undname
        "rtti_image 0 0x140002028 0x140001000 0x140002028 0x140001008" "0x140000000"
        rtti_sections "0x140002010" "0x140002060"
        "emplace [str ''Foo'' \<mapsto> Foo_rtti 0x140002010] (str ''Foo'') (Foo_rtti 0x140002020)"]
    first_candidate_retained [of Map.empty "str ''Foo''" "Foo_rtti 0x140002010"
        "Foo_rtti 0x140002020"]
    sweep_from_third_slot [of 0 "0x140002028" "0x140001000"
        "[str ''Foo'' \<mapsto> Foo_rtti 0x140002010]"]
  by (simp add: Foo_rtti_def)

section \<open>Claims about installing by name\<close>

text \<open>
  Claim C9 (install by name, class absent), amended. When the name is not in the
  scanner's map, the constructor returns without calling \<open>hook\<close>. It reports nothing: a
  constructor has no result, nothing is thrown, and the handle's only field,
  \<open>allocationBase\<close>, stays null. The process is as before (no page allocated, no byte of
  memory written, so every VFT slot is unchanged), and destroying that handle returns at
  the null check: the process is again as before, nothing freed and nothing written.
  The outcome is the one that any install leaves when \<open>VirtualAlloc\<close> fails, whatever
  the class map and the name, so the absence of the class cannot be told from it.
\<close>

theorem install_by_name_absent:
  assumes "getClassRTTI cr className = None"
  shows "VFTHook_by_name L h cr s className vftIndex fn = (0, s)
       \<and> destroy L h' (snd (VFTHook_by_name L h cr s className vftIndex fn))
             (fst (VFTHook_by_name L h cr s className vftIndex fn)) = Some s
       \<and> (VirtualAlloc h0 = 0 \<longrightarrow>
            VFTHook_by_name L h0 cr' s className' vftIndex' fn'
              = VFTHook_by_name L h cr s className vftIndex fn)"
  using assms
  by (simp add: VFTHook_by_name_def destroy_def hook_def split: option.splits)

text \<open>
  Claim C9, as stated, has the install fail with \<open>ClassNotFound\<close>. In the class map
  \<open>PlayerIns_index\<close> the name \<open>Nope\<close> is absent and \<open>CS::PlayerIns\<close> is present. The
  install of \<open>Nope\<close>, and the install of \<open>CS::PlayerIns\<close> on a host whose \<open>VirtualAlloc\<close>
  fails, end with the same null handle and the same process.
\<close>

theorem absent_class_like_failed_allocation:
  "getClassRTTI PlayerIns_index (str ''Nope'') = None
   \<and> getClassRTTI PlayerIns_index (str ''CS::PlayerIns'') \<noteq> None
   \<and> VirtualAlloc (sample_os 0) = 0
   \<and> VFTHook_by_name VFTHook_layout (sample_os 0x7FF000010000) PlayerIns_index unhooked
        (str ''Nope'') 20 0x7FFB00001000 = (0, unhooked)
   \<and> VFTHook_by_name VFTHook_layout (sample_os 0) PlayerIns_index unhooked
        (str ''CS::PlayerIns'') 20 0x7FFB00001000 = (0, unhooked)"
  by (simp add: VFTHook_by_name_def hook_def getClassRTTI_def PlayerIns_index_def
        sample_os_def str_def)

theorem install_by_name_absent_witness:
  "getClassRTTI Map.empty (str ''Nope'') = None
   \<and> VFTHook_by_name VFTHook_layout (sample_os 0x7FF000010000) Map.empty idle (str ''Nope'') 0
         0x140001000 = (0, idle)
   \<and> destroy VFTHook_layout (sample_os 0) idle 0 = Some idle
   \<and> VirtualAlloc (sample_os 0) = 0
   \<and> VFTHook_by_name VFTHook_layout (sample_os 0) PlayerIns_index idle (str ''CS::PlayerIns'')
         20 0x140001000 = (0, idle)"
proof -
  have n: "getClassRTTI Map.empty (str ''Nope'') = None" by (simp add: getClassRTTI_def)
  have z: "VirtualAlloc (sample_os 0) = 0" by (simp add: sample_os_def)
  note T = install_by_name_absent [where cr = Map.empty and className = "str ''Nope''"
      and L = VFTHook_layout and h = "sample_os 0x7FF000010000" and s = idle and vftIndex = 0
      and fn = "0x140001000" and h' = "sample_os 0" and ?h0.0 = "sample_os 0"
      and cr' = PlayerIns_index and className' = "str ''CS::PlayerIns''" and vftIndex' = 20
      and fn' = "0x140001000", OF n]
  show ?thesis using T n z by auto
qed

section \<open>Separation of memory ranges and the hook header\<close>

lemma sep_sym: "sep a n b k \<Longrightarrow> sep b k a n"
  by (simp add: sep_def)

lemma sep_shift: "sep (a + i) n (a + j) k = sep i n j k"
  by (simp add: sep_def)

lemma sep_shift0: "sep a n (a + j) k = sep 0 n j k" "sep (a + i) n a k = sep i n 0 k"
  by (simp_all add: sep_def)

lemma sep_sub_left:
  assumes "sep a n x k" "unat i + n' \<le> n" "0 < n'"
  shows "sep (a + i) n' x k"
proof -
  have ne: "a \<noteq> x" using assms by (auto simp: sep_def)
  have s: "unat (a - x) + unat (x - a) = 2 ^ 64" by (rule unat_diff_sum [OF ne])
  have n: "n \<le> unat (x - a)" and k: "k \<le> unat (a - x)" using assms(1) by (simp_all add: sep_def)
  have e1: "x - (a + i) = (x - a) - i" by simp
  have "unat i \<le> unat (x - a)" using assms(2) n by simp
  then have "i \<le> x - a" by (simp add: word_le_nat_alt)
  then have u1: "unat ((x - a) - i) = unat (x - a) - unat i" by (rule unat_sub)
  have e2: "a + i - x = (a - x) + i" by simp
  have "unat (a - x) + unat i < 2 ^ 64" using s n assms(2,3) by simp
  then have u2: "unat ((a - x) + i) = unat (a - x) + unat i"
    by (simp add: unat_plus_if')
  show ?thesis
    unfolding sep_def e1 e2 u1 u2 using n k assms(2) by simp
qed

lemma sep_sub_right:
  "sep x k a n \<Longrightarrow> unat i + n' \<le> n \<Longrightarrow> 0 < n' \<Longrightarrow> sep x k (a + i) n'"
  using sep_sub_left [of a n x k i n'] by (simp add: sep_sym)


lemma sep_narrow: "sep a n b k \<Longrightarrow> n' \<le> n \<Longrightarrow> k' \<le> k \<Longrightarrow> sep a n' b k'"
  by (simp add: sep_def)

lemma bytes_at_write_bytes_take:
  assumes "n \<le> length bs" "length bs < 2 ^ 64"
  shows "bytes_at (write_bytes m a bs) a n = take n bs"
proof (rule nth_equalityI)
  show "length (bytes_at (write_bytes m a bs) a n) = length (take n bs)"
    using assms by (simp add: bytes_at_def)
next
  fix i assume "i < length (bytes_at (write_bytes m a bs) a n)"
  then have i: "i < n" by (simp add: bytes_at_def)
  then have "unat (of_nat i :: addr) = i" using assms by (simp add: unat_of_nat)
  then show "bytes_at (write_bytes m a bs) a n ! i = take n bs ! i"
    using i assms by (simp add: bytes_at_def write_bytes_def)
qed

lemma read64_write_bytes_magic:
  assumes "take 8 bs = le64 v" "length bs \<le> page_size"
  shows "read64 (write_bytes m a bs) a = v"
proof -
  have "length (take 8 bs) = 8" using assms(1) by (simp add: le64_def)
  then have l: "8 \<le> length bs" by simp
  have "length bs < 2 ^ 64" using assms(2) by (simp add: page_size_def)
  then have "bytes_at (write_bytes m a bs) a 8 = le64 v"
    using bytes_at_write_bytes_take [OF l] assms(1) by simp
  then show ?thesis
    by (simp add: read64_def le64_def le_val_le_bytes of_nat_unat_mod64)
qed

lemma bytes_at_write64_sep: "sep a 8 b k \<Longrightarrow> bytes_at (write64 m a v) b k = bytes_at m b k"
  by (simp add: write64_def bytes_at_write_bytes_sep)

lemma unat_off8: "unat (i::addr) + 16 \<le> page_size \<Longrightarrow> unat (i + 8) = unat i + 8"
  by (simp add: unat_plus_if' page_size_def)

lemma bytes_at_init_hook_frame:
  assumes wf: "wf_layout L" and s: "sep a page_size x k"
  shows "bytes_at (init_hook L h m a v f) x k = bytes_at m x k"
proof -
  have c: "sep a (length (construct L (new_context h))) x k"
    using wf s by (auto simp: wf_layout_def intro: sep_narrow)
  have z: "sep a (length (replicate page_size (0::byte))) x k" using s by simp
  have o: "sep (a + off_mutex L) 8 x k" "sep (a + off_previous L) 8 x k"
      "sep (a + off_fnNew L) 8 x k" "sep (a + off_fnHooked L) 8 x k"
    using wf by (auto simp: wf_layout_def intro!: sep_sub_left [OF s])
  have "unat (off_mutex L + 8) + 8 \<le> page_size"
    using wf by (simp add: wf_layout_def unat_off8)
  then have o2: "sep (a + (off_mutex L + 8)) 8 x k"
    by (intro sep_sub_left [OF s]) simp_all
  show ?thesis
    using c z o o2
    by (simp add: init_hook_def Let_def bytes_at_write64_sep bytes_at_write_bytes_sep add.assoc)
qed

lemma read64_init_hook_frame:
  "wf_layout L \<Longrightarrow> sep a page_size x 8 \<Longrightarrow> read64 (init_hook L h m a v f) x = read64 m x"
  by (simp add: read64_def bytes_at_init_hook_frame)

lemma read64_write64_other: "sep a 8 b 8 \<Longrightarrow> read64 (write64 m a v) b = read64 m b"
  by (rule read64_write64_sep)

lemma wf_field_seps:
  assumes wf: "wf_layout L"
  shows "sep (a + off_previous L) 8 a 8" "sep (a + off_fnNew L) 8 a 8"
    "sep (a + off_fnHooked L) 8 a 8" "sep (a + off_mutex L) 8 a 8"
    "sep (a + (off_mutex L + 8)) 8 a 8"
    "sep (a + off_fnNew L) 8 (a + off_previous L) 8"
    "sep (a + off_fnNew L) 8 (a + off_fnHooked L) 8"
    "sep (a + off_previous L) 8 (a + off_fnHooked L) 8"
    "sep (a + off_fnHooked L) 8 (a + off_previous L) 8"
    "sep (a + off_previous L) 8 (a + off_fnNew L) 8"
    "sep (a + off_fnHooked L) 8 (a + off_fnNew L) 8"
    "sep a 8 (a + off_previous L) 8" "sep a 8 (a + off_fnHooked L) 8"
    "sep a 8 (a + off_fnNew L) 8"
proof -
  have m2: "sep 0 8 (off_mutex L + 8) 8"
    using wf sep_sub_right [of 0 8 "off_mutex L" 16 8 8] by (simp add: wf_layout_def)
  show "sep (a + off_previous L) 8 a 8" "sep (a + off_fnNew L) 8 a 8"
    "sep (a + off_fnHooked L) 8 a 8" "sep (a + off_mutex L) 8 a 8"
    "sep (a + (off_mutex L + 8)) 8 a 8"
    "sep (a + off_fnNew L) 8 (a + off_previous L) 8"
    "sep (a + off_fnNew L) 8 (a + off_fnHooked L) 8"
    "sep (a + off_previous L) 8 (a + off_fnHooked L) 8"
    "sep (a + off_fnHooked L) 8 (a + off_previous L) 8"
    "sep (a + off_previous L) 8 (a + off_fnNew L) 8"
    "sep (a + off_fnHooked L) 8 (a + off_fnNew L) 8"
    "sep a 8 (a + off_previous L) 8" "sep a 8 (a + off_fnHooked L) 8"
    "sep a 8 (a + off_fnNew L) 8"
    using wf m2
    by (auto simp: wf_layout_def sep_shift sep_shift0 intro: sep_sym sep_narrow)
qed


lemma init_hook_magic:
  assumes wf: "wf_layout L"
  shows "read64 (init_hook L h m a v f) a = magic L"
proof -
  have "read64 (write_bytes (write_bytes m a (replicate page_size 0)) a
           (construct L (new_context h))) a = magic L"
    using wf by (intro read64_write_bytes_magic) (auto simp: wf_layout_def)
  then show ?thesis
    by (simp add: init_hook_def Let_def read64_write64_sep wf_field_seps [OF wf] add.assoc)
qed

lemma init_hook_fnNew: "read64 (init_hook L h m a v f) (a + off_fnNew L) = f"
  by (simp add: init_hook_def Let_def read64_write64_same)

lemma init_hook_previous:
  "wf_layout L \<Longrightarrow> read64 (init_hook L h m a v f) (a + off_previous L) = v"
  by (simp add: init_hook_def Let_def read64_write64_same read64_write64_sep wf_field_seps)

lemma init_hook_fnHooked:
  assumes wf: "wf_layout L" and s: "sep a page_size v 8"
  shows "read64 (init_hook L h m a v f) (a + off_fnHooked L) = read64 m v"
proof -
  let ?m3 = "write64 (write64 (write_bytes (write_bytes m a (replicate page_size 0)) a
            (construct L (new_context h))) (a + off_mutex L) (new_mutex h))
            (a + off_mutex L + 8) (new_mutex_ctrl h)"
  have c: "sep a (length (construct L (new_context h))) v 8"
    using wf s by (auto simp: wf_layout_def intro: sep_narrow)
  have o: "sep (a + off_mutex L) 8 v 8"
    using wf by (auto simp: wf_layout_def intro!: sep_sub_left [OF s])
  have "unat (off_mutex L + 8) + 8 \<le> page_size"
    using wf by (simp add: wf_layout_def unat_off8)
  then have o2: "sep (a + (off_mutex L + 8)) 8 v 8"
    by (intro sep_sub_left [OF s]) simp_all
  have "read64 ?m3 v = read64 m v"
    using c o o2 s by (simp add: read64_write64_sep read64_write_bytes_sep add.assoc)
  then show ?thesis
    by (simp add: init_hook_def Let_def read64_write64_same read64_write64_sep
          wf_field_seps [OF wf])
qed

lemma le64_length [simp]: "length (le64 v) = 8"
  by (simp add: le64_def)

lemma wf_VFTHook_layout: "wf_layout VFTHook_layout"
  by (simp add: wf_layout_def VFTHook_layout_def page_size_def sep_def VFTHook_asmRaw_def)


lemma rdataWrite_ok: "VirtualProtect_rwx h p \<Longrightarrow> snd (rdataWrite h m p v) = write64 m p v"
  by (simp add: rdataWrite_def)

lemma rdataWrite_fail: "\<not> VirtualProtect_rwx h p \<Longrightarrow> rdataWrite h m p v = (False, m)"
  by (simp add: rdataWrite_def)

lemma hook_no_chain:
  assumes wf: "wf_layout L"
    and a: "VirtualAlloc h = a" "a \<noteq> 0"
    and slot: "slot = pVFT + 8 * ucast vftIndex"
    and s1: "sep a page_size slot 8"
    and s2: "sep a page_size (read64 (mem s) slot - sizeof_header L) 8"
    and nm: "read64 (mem s) (read64 (mem s) slot - sizeof_header L) \<noteq> magic L"
  shows "hook L h s pVFT vftIndex f
       = (a, \<lparr>mem = snd (rdataWrite h (init_hook L h (mem s) a slot f) slot (a + sizeof_header L)),
               pages = insert a (pages s)\<rparr>)"
proof -
  let ?m = "init_hook L h (mem s) a slot f"
  have 1: "read64 ?m (a + off_fnHooked L) = read64 (mem s) slot"
    by (rule init_hook_fnHooked [OF wf s1])
  have 2: "read64 ?m slot = read64 (mem s) slot"
    by (rule read64_init_hook_frame [OF wf s1])
  have 3: "read64 ?m a = magic L" by (rule init_hook_magic [OF wf])
  have 4: "read64 ?m (read64 (mem s) slot - sizeof_header L)
         = read64 (mem s) (read64 (mem s) slot - sizeof_header L)"
    by (rule read64_init_hook_frame [OF wf s2])
  show ?thesis
    using a nm by (simp add: hook_def Let_def slot [symmetric] 1 2 3 4)
qed

lemma hook_chain:
  assumes wf: "wf_layout L"
    and a: "VirtualAlloc h = a" "a \<noteq> 0"
    and slot: "slot = pVFT + 8 * ucast vftIndex"
    and s1: "sep a page_size slot 8"
    and s2: "sep a page_size (read64 (mem s) slot - sizeof_header L) 8"
    and nm: "read64 (mem s) (read64 (mem s) slot - sizeof_header L) = magic L"
  shows "hook L h s pVFT vftIndex f
       = (a, \<lparr>mem = snd (rdataWrite h
                   (snd (rdataWrite h (init_hook L h (mem s) a slot f)
                      (read64 (mem s) slot - sizeof_header L + off_previous L) a))
                   slot (a + sizeof_header L)),
               pages = insert a (pages s)\<rparr>)"
proof -
  let ?m = "init_hook L h (mem s) a slot f"
  have 1: "read64 ?m (a + off_fnHooked L) = read64 (mem s) slot"
    by (rule init_hook_fnHooked [OF wf s1])
  have 2: "read64 ?m slot = read64 (mem s) slot"
    by (rule read64_init_hook_frame [OF wf s1])
  have 3: "read64 ?m a = magic L" by (rule init_hook_magic [OF wf])
  have 4: "read64 ?m (read64 (mem s) slot - sizeof_header L)
         = read64 (mem s) (read64 (mem s) slot - sizeof_header L)"
    by (rule read64_init_hook_frame [OF wf s2])
  show ?thesis
    using a nm by (simp add: hook_def Let_def slot [symmetric] 1 2 3 4)
qed






section \<open>Installing into and removing from a chain\<close>

lemma routes_frame:
  assumes "\<forall>x\<in>set hs. read64 m' x = read64 m x
              \<and> read64 m' (x + off_previous L) = read64 m (x + off_previous L)
              \<and> read64 m' (x + off_fnHooked L) = read64 m (x + off_fnHooked L)"
  shows "routes L m' entry up hs F0 = routes L m entry up hs F0"
  using assms by (induction hs arbitrary: entry up) auto

lemma page_cells:
  assumes wf: "wf_layout L" and s: "sep x page_size c k"
  shows "sep x 8 c k" "sep (x + off_previous L) 8 c k" "sep (x + off_fnHooked L) 8 c k"
    "sep (x + off_fnNew L) 8 c k"
proof -
  show "sep x 8 c k" using s by (rule sep_narrow) (simp_all add: page_size_def)
  show "sep (x + off_previous L) 8 c k" "sep (x + off_fnHooked L) 8 c k"
    "sep (x + off_fnNew L) 8 c k"
    using wf by (auto simp: wf_layout_def intro!: sep_sub_left [OF s])
qed

lemma page_cells':
  assumes wf: "wf_layout L" and s: "sep x page_size c k"
  shows "sep c k x 8" "sep c k (x + off_previous L) 8" "sep c k (x + off_fnHooked L) 8"
    "sep c k (x + off_fnNew L) 8"
  using page_cells [OF wf s] by (auto intro: sep_sym)

lemma unlink_ok:
  assumes ok: "\<And>p. VirtualProtect_rwx h p"
  shows "unlink L h m x =
     (let nextHook = read64 m (x + off_fnHooked L) - sizeof_header L;
          prevHook = read64 m (x + off_previous L);
          m1 = (if read64 m x = read64 m nextHook
                then write64 m (nextHook + off_previous L) prevHook else m)
      in if read64 m1 x = read64 m1 prevHook
         then write64 m1 (prevHook + off_fnHooked L) (read64 m1 (x + off_fnHooked L))
         else write64 m1 prevHook (read64 m1 (x + off_fnHooked L)))"
  by (simp add: unlink_def Let_def rdataWrite_ok ok)

lemma unlink_head_last:
  assumes wf: "wf_layout L" and ok: "\<And>p. VirtualProtect_rwx h p"
    and x: "read64 m x = magic L" "read64 m (x + off_previous L) = up"
      "read64 m (x + off_fnHooked L) = F0"
    and e: "e = (if read64 m up = magic L then up + off_fnHooked L else up)"
    and f: "read64 m (F0 - sizeof_header L) \<noteq> magic L"
  shows "unlink L h m x = write64 m e F0"
  using x e f by (simp add: unlink_ok [OF ok] Let_def)

lemma unlink_head_next:
  assumes wf: "wf_layout L" and ok: "\<And>p. VirtualProtect_rwx h p"
    and x: "read64 m x = magic L" "read64 m (x + off_previous L) = up"
      "read64 m (x + off_fnHooked L) = y + sizeof_header L"
    and y: "read64 m y = magic L"
    and e: "e = (if read64 m up = magic L then up + off_fnHooked L else up)"
    and xy: "sep y page_size x page_size"
    and yu: "sep y page_size up 8"
  shows "unlink L h m x = write64 (write64 m (y + off_previous L) up) e (y + sizeof_header L)"
proof -
  let ?m1 = "write64 m (y + off_previous L) up"
  have p: "sep y page_size x 8" "sep y page_size (x + off_fnHooked L) 8"
    using page_cells' [OF wf sep_sym [OF xy]] by (auto intro: sep_sym)
  have 1: "read64 ?m1 x = magic L"
    using page_cells(2) [OF wf p(1)] x by (simp add: read64_write64_sep)
  have 2: "read64 ?m1 up = read64 m up"
    using page_cells(2) [OF wf yu] by (simp add: read64_write64_sep)
  have 3: "read64 ?m1 (x + off_fnHooked L) = y + sizeof_header L"
    using page_cells(2) [OF wf p(2)] x by (simp add: read64_write64_sep)
  show ?thesis
    using x y e 1 2 3 by (simp add: unlink_ok [OF ok] Let_def)
qed

lemma unlink_routes:
  assumes wf: "wf_layout L" and ok: "\<And>p. VirtualProtect_rwx h p"
    and f: "read64 m (F0 - sizeof_header L) \<noteq> magic L"
  shows "routes L m (read64 m e) up hs F0
    \<Longrightarrow> e = (if read64 m up = magic L then up + off_fnHooked L else up)
    \<Longrightarrow> x \<in> set hs \<Longrightarrow> distinct hs
    \<Longrightarrow> (\<forall>y\<in>set hs. \<forall>z\<in>set hs. y \<noteq> z \<longrightarrow> sep y page_size z page_size)
    \<Longrightarrow> (\<forall>y\<in>set hs. sep y page_size up 8 \<and> sep y page_size e 8)
    \<Longrightarrow> routes L (unlink L h m x) (read64 (unlink L h m x) e) up (remove1 x hs) F0
        \<and> (\<forall>c. (\<forall>y\<in>set hs. sep y page_size c 8) \<and> sep e 8 c 8
               \<longrightarrow> read64 (unlink L h m x) c = read64 m c)"
proof (induction hs arbitrary: up e)
  case Nil
  then show ?case by simp
next
  case (Cons a hs)
  note R = Cons.prems(1) and E = Cons.prems(2) and D = Cons.prems(4)
    and P = Cons.prems(5) and U = Cons.prems(6)
  have a: "read64 m e = a + sizeof_header L" "read64 m a = magic L"
      "read64 m (a + off_previous L) = up"
      "routes L m (read64 m (a + off_fnHooked L)) a hs F0"
    using R by simp_all
  show ?case
  proof (cases "x = a")
    case True
    show ?thesis
    proof (cases hs)
      case Nil
      have F: "read64 m (a + off_fnHooked L) = F0" using a(4) Nil by simp
      have u: "unlink L h m a = write64 m e F0"
        by (rule unlink_head_last [OF wf ok a(2) a(3) F E f])
      show ?thesis
        using True Nil by (simp add: u read64_write64_same read64_write64_sep)
    next
      case (Cons y tl)
      have y: "read64 m (a + off_fnHooked L) = y + sizeof_header L" "read64 m y = magic L"
          "read64 m (y + off_previous L) = a"
          "routes L m (read64 m (y + off_fnHooked L)) y tl F0"
        using a(4) Cons by simp_all
      have ya: "sep y page_size a page_size" using P D Cons by auto
      have yu: "sep y page_size up 8" "sep y page_size e 8" using U Cons by auto
      have u: "unlink L h m a
             = write64 (write64 m (y + off_previous L) up) e (y + sizeof_header L)"
        by (rule unlink_head_next [OF wf ok a(2) a(3) y(1) y(2) E ya yu(1)])
      let ?m' = "write64 (write64 m (y + off_previous L) up) e (y + sizeof_header L)"
      have ey: "sep e 8 y 8" "sep e 8 (y + off_previous L) 8" "sep e 8 (y + off_fnHooked L) 8"
        using page_cells' [OF wf yu(2)] by auto
      have 1: "read64 ?m' e = y + sizeof_header L" by (simp add: read64_write64_same)
      have 2: "read64 ?m' y = magic L"
        using ey y(2) wf_field_seps [OF wf, of y] by (simp add: read64_write64_sep)
      have 3: "read64 ?m' (y + off_previous L) = up"
        using ey by (simp add: read64_write64_sep read64_write64_same)
      have 4: "read64 ?m' (y + off_fnHooked L) = read64 m (y + off_fnHooked L)"
        using ey wf_field_seps [OF wf, of y] by (simp add: read64_write64_sep)
      have fr: "read64 ?m' c = read64 m c"
        if "sep y page_size c 8" "sep e 8 c 8" for c
        using that page_cells [OF wf that(1)] by (simp add: read64_write64_sep)
      have tl: "\<forall>z\<in>set tl. read64 ?m' z = read64 m z
                 \<and> read64 ?m' (z + off_previous L) = read64 m (z + off_previous L)
                 \<and> read64 ?m' (z + off_fnHooked L) = read64 m (z + off_fnHooked L)"
      proof
        fix z assume z: "z \<in> set tl"
        have zy: "sep y page_size z page_size" using P D Cons z by auto
        have ze: "sep z page_size e 8" using U Cons z by auto
        show "read64 ?m' z = read64 m z
                 \<and> read64 ?m' (z + off_previous L) = read64 m (z + off_previous L)
                 \<and> read64 ?m' (z + off_fnHooked L) = read64 m (z + off_fnHooked L)"
          using page_cells' [OF wf sep_sym [OF zy]] page_cells' [OF wf ze]
          by (auto intro!: fr)
      qed
      have 5: "routes L ?m' (read64 m (y + off_fnHooked L)) y tl F0"
        using y(4) routes_frame [OF tl] by simp
      show ?thesis
        using True Cons D 1 2 3 4 5 by (auto simp: u intro!: fr)
    qed
  next
    case False
    then have xin: "x \<in> set hs" using Cons.prems(3) by simp
    have e': "a + off_fnHooked L = (if read64 m a = magic L then a + off_fnHooked L else a)"
      using a(2) by simp
    have P': "\<forall>y\<in>set hs. \<forall>z\<in>set hs. y \<noteq> z \<longrightarrow> sep y page_size z page_size"
      using P by simp
    have U': "\<forall>y\<in>set hs. sep y page_size a 8 \<and> sep y page_size (a + off_fnHooked L) 8"
    proof
      fix y assume y: "y \<in> set hs"
      then have "sep a page_size y page_size" using P D by auto
      then show "sep y page_size a 8 \<and> sep y page_size (a + off_fnHooked L) 8"
        using page_cells' [OF wf] by auto
    qed
    have IH: "routes L (unlink L h m x) (read64 (unlink L h m x) (a + off_fnHooked L)) a
                (remove1 x hs) F0
            \<and> (\<forall>c. (\<forall>y\<in>set hs. sep y page_size c 8) \<and> sep (a + off_fnHooked L) 8 c 8
                   \<longrightarrow> read64 (unlink L h m x) c = read64 m c)"
      using Cons.IH [OF a(4) e' xin _ P' U'] D by simp
    then have fr: "read64 (unlink L h m x) c = read64 m c"
      if "\<forall>y\<in>set hs. sep y page_size c 8" "sep (a + off_fnHooked L) 8 c 8" for c
      using that by blast
    have au: "sep a page_size up 8" "sep a page_size e 8" using U by auto
    have 1: "read64 (unlink L h m x) e = a + sizeof_header L"
      using fr [of e] U page_cells [OF wf au(2)] a(1) by simp
    have ha: "\<forall>y\<in>set hs. sep y page_size a 8 \<and> sep y page_size (a + off_previous L) 8"
    proof
      fix y assume y: "y \<in> set hs"
      then have "sep a page_size y page_size" using P D by auto
      then show "sep y page_size a 8 \<and> sep y page_size (a + off_previous L) 8"
        using page_cells' [OF wf] by auto
    qed
    have 2: "read64 (unlink L h m x) a = magic L"
      using fr [of a] ha wf_field_seps [OF wf, of a] a(2) by simp
    have 3: "read64 (unlink L h m x) (a + off_previous L) = up"
      using fr [of "a + off_previous L"] ha wf_field_seps [OF wf, of a] a(3) by simp
    have 4: "read64 (unlink L h m x) c = read64 m c"
      if "\<forall>y\<in>set (a # hs). sep y page_size c 8" for c
      using that fr [of c] page_cells [OF wf, of a c 8] by simp
    show ?thesis
      using False IH 1 2 3 4 by simp
  qed
qed

lemma find_top_climb:
  assumes k: "read64 m k = magic L"
  shows "routes L m entry up hs F0 \<Longrightarrow> x \<in> set hs
    \<Longrightarrow> find_top L m k x = find_top L m k (hd hs)"
proof (induction hs arbitrary: entry up)
  case Nil
  then show ?case by simp
next
  case (Cons a hs)
  show ?case
  proof (cases "x = a")
    case True
    then show ?thesis by simp
  next
    case False
    then have xin: "x \<in> set hs" using Cons.prems(2) by simp
    then obtain y tl where hs: "hs = y # tl" by (cases hs) auto
    have a: "read64 m a = magic L" and r: "routes L m (read64 m (a + off_fnHooked L)) a hs F0"
      using Cons.prems(1) by simp_all
    have y: "read64 m (y + off_previous L) = a" using r hs by simp
    have "find_top L m k y = find_top L m k a"
      using a y k by (subst find_top.simps) simp
    moreover have "find_top L m k x = find_top L m k y"
      using Cons.IH [OF r xin] hs by simp
    ultimately show ?thesis by simp
  qed
qed

lemma routes_magic:
  "routes L m entry up hs F0 \<Longrightarrow> x \<in> set hs \<Longrightarrow> read64 m x = magic L"
  by (induction hs arbitrary: entry up) auto

lemma find_top_chain:
  assumes c: "chain L m slot hs F0" and x: "x \<in> set hs"
    and b: "\<forall>y\<in>set hs. y + sizeof_header L \<noteq> magic L"
  shows "find_top L m x x = Some (hd hs)"
proof -
  obtain a tl where hs: "hs = a # tl" using x by (cases hs) auto
  have r: "routes L m (read64 m slot) slot hs F0" using c by (simp add: chain_def)
  have a: "read64 m slot = a + sizeof_header L" "read64 m a = magic L"
    "read64 m (a + off_previous L) = slot"
    using r hs by simp_all
  have xm: "read64 m x = magic L"
    by (rule routes_magic [OF r x])
  have "find_top L m x x = find_top L m x (hd hs)"
    by (rule find_top_climb [OF xm r x])
  also have "\<dots> = Some a"
    using a xm b hs by (subst find_top.simps) simp
  finally show ?thesis using hs by simp
qed

lemma placed_set:
  "placed L slot hs F0 =
     (distinct hs
      \<and> (\<forall>x\<in>set hs. x \<noteq> 0 \<and> sep x page_size slot 8
             \<and> sep x page_size (F0 - sizeof_header L) 8
             \<and> x + sizeof_header L \<noteq> magic L
             \<and> (\<forall>y\<in>set hs. x \<noteq> y \<longrightarrow> sep x page_size y page_size))
      \<and> sep slot 8 (F0 - sizeof_header L) 8)"
  by (auto simp: placed_def list_all_iff)

lemma placed_remove1: "placed L slot hs F0 \<Longrightarrow> placed L slot (remove1 x hs) F0"
  by (auto simp: placed_set)

lemma destroy_chain:
  assumes wf: "wf_layout L" and ok: "\<And>p. VirtualProtect_rwx h p"
    and pl: "placed L slot hs F0"
    and c: "chain L (mem s) slot hs F0"
    and f: "read64 (mem s) (F0 - sizeof_header L) \<noteq> magic L"
    and x: "x \<in> set hs"
  shows "destroy L h s x = Some \<lparr>mem = unlink L h (mem s) x, pages = pages s - {x}\<rparr>"
    and "chain L (unlink L h (mem s) x) slot (remove1 x hs) F0"
    and "read64 (unlink L h (mem s) x) (F0 - sizeof_header L) \<noteq> magic L"
proof -
  obtain a tl where hs: "hs = a # tl" using x by (cases hs) auto
  have b: "\<forall>y\<in>set hs. y + sizeof_header L \<noteq> magic L" using pl by (simp add: placed_set)
  have x0: "x \<noteq> 0" using pl x by (simp add: placed_set)
  have ft: "find_top L (mem s) x x = Some (hd hs)" by (rule find_top_chain [OF c x b])
  show "destroy L h s x = Some \<lparr>mem = unlink L h (mem s) x, pages = pages s - {x}\<rparr>"
    using x0 ft by (simp add: destroy_def)
  have r: "routes L (mem s) (read64 (mem s) slot) slot hs F0" using c by (simp add: chain_def)
  have "read64 (mem s) slot = a + sizeof_header L" using r hs by simp
  then have e: "slot = (if read64 (mem s) slot = magic L then slot + off_fnHooked L else slot)"
    using b hs by simp
  have P: "\<forall>y\<in>set hs. \<forall>z\<in>set hs. y \<noteq> z \<longrightarrow> sep y page_size z page_size"
    and U: "\<forall>y\<in>set hs. sep y page_size slot 8 \<and> sep y page_size slot 8"
    and D: "distinct hs"
    using pl by (simp_all add: placed_set)
  have u: "routes L (unlink L h (mem s) x) (read64 (unlink L h (mem s) x) slot) slot
             (remove1 x hs) F0
        \<and> (\<forall>c. (\<forall>y\<in>set hs. sep y page_size c 8) \<and> sep slot 8 c 8
               \<longrightarrow> read64 (unlink L h (mem s) x) c = read64 (mem s) c)"
    by (rule unlink_routes [OF wf ok f r e x D P U])
  then show "chain L (unlink L h (mem s) x) slot (remove1 x hs) F0"
    by (simp add: chain_def)
  have "read64 (unlink L h (mem s) x) (F0 - sizeof_header L)
      = read64 (mem s) (F0 - sizeof_header L)"
    using u pl by (simp add: placed_set)
  then show "read64 (unlink L h (mem s) x) (F0 - sizeof_header L) \<noteq> magic L"
    using f by simp
qed

lemma install_chain:
  assumes wf: "wf_layout L" and ok: "\<And>p. VirtualProtect_rwx h p"
    and a: "VirtualAlloc h = a"
    and slot: "slot = pVFT + 8 * ucast vftIndex"
    and pl: "placed L slot (a # hs) F0"
    and c: "chain L (mem s) slot hs F0"
    and f: "read64 (mem s) (F0 - sizeof_header L) \<noteq> magic L"
  shows "fst (hook L h s pVFT vftIndex fn) = a
        \<and> pages (snd (hook L h s pVFT vftIndex fn)) = insert a (pages s)
        \<and> chain L (mem (snd (hook L h s pVFT vftIndex fn))) slot (a # hs) F0
        \<and> read64 (mem (snd (hook L h s pVFT vftIndex fn))) (F0 - sizeof_header L) \<noteq> magic L
        \<and> read64 (mem (snd (hook L h s pVFT vftIndex fn))) (a + off_fnNew L) = fn"
proof -
  let ?hdr = "sizeof_header L"
  let ?m = "init_hook L h (mem s) a slot fn"
  have a0: "a \<noteq> 0" and as: "sep a page_size slot 8" and af: "sep a page_size (F0 - ?hdr) 8"
    and sf: "sep slot 8 (F0 - ?hdr) 8"
    using pl by (simp_all add: placed_set)
  have sa: "sep slot 8 a 8" "sep slot 8 (a + off_previous L) 8"
      "sep slot 8 (a + off_fnHooked L) 8" "sep slot 8 (a + off_fnNew L) 8"
    using page_cells' [OF wf as] by auto
  have r: "routes L (mem s) (read64 (mem s) slot) slot hs F0" using c by (simp add: chain_def)
  have i: "read64 ?m a = magic L" "read64 ?m (a + off_previous L) = slot"
    "read64 ?m (a + off_fnHooked L) = read64 (mem s) slot"
    "read64 ?m (a + off_fnNew L) = fn"
    by (simp_all add: init_hook_magic [OF wf] init_hook_previous [OF wf]
          init_hook_fnHooked [OF wf as] init_hook_fnNew)
  have fr: "read64 ?m c = read64 (mem s) c" if "sep a page_size c 8" for c
    using that by (rule read64_init_hook_frame [OF wf])
  show ?thesis
  proof (cases hs)
    case Nil
    have F: "read64 (mem s) slot = F0" using r Nil by simp
    have hk: "hook L h s pVFT vftIndex fn
       = (a, \<lparr>mem = write64 ?m slot (a + ?hdr), pages = insert a (pages s)\<rparr>)"
      using hook_no_chain [OF wf a a0 slot as, of s fn] af f F
      by (simp add: rdataWrite_ok ok)
    show ?thesis
      using Nil sa sf i F f fr [OF af]
      by (simp add: hk chain_def read64_write64_same read64_write64_sep)
  next
    case (Cons y tl)
    have y: "read64 (mem s) slot = y + ?hdr" "read64 (mem s) y = magic L"
        "read64 (mem s) (y + off_previous L) = slot"
        "routes L (mem s) (read64 (mem s) (y + off_fnHooked L)) y tl F0"
      using r Cons by simp_all
    have ay: "sep a page_size y page_size" and ys: "sep y page_size slot 8"
      and yf: "sep y page_size (F0 - ?hdr) 8"
      using pl Cons by (auto simp: placed_set)
    have ayc: "sep a page_size y 8" "sep a page_size (y + off_previous L) 8"
        "sep a page_size (y + off_fnHooked L) 8"
      using page_cells' [OF wf sep_sym [OF ay]] by auto
    have cand: "read64 (mem s) slot - ?hdr = y" using y(1) by simp
    let ?m' = "write64 (write64 ?m (y + off_previous L) a) slot (a + ?hdr)"
    have hk: "hook L h s pVFT vftIndex fn = (a, \<lparr>mem = ?m', pages = insert a (pages s)\<rparr>)"
      using hook_chain [OF wf a a0 slot as, of s fn] ayc y(2)
      by (simp add: cand rdataWrite_ok ok)
    have sy: "sep slot 8 y 8" "sep slot 8 (y + off_previous L) 8"
        "sep slot 8 (y + off_fnHooked L) 8"
      using page_cells' [OF wf ys] by auto
    have ya: "sep (y + off_previous L) 8 a 8" "sep (y + off_previous L) 8 (a + off_previous L) 8"
        "sep (y + off_previous L) 8 (a + off_fnHooked L) 8"
        "sep (y + off_previous L) 8 (a + off_fnNew L) 8"
      using page_cells' [OF wf ayc(2)] by auto
    have fr': "read64 ?m' c = read64 (mem s) c"
      if "sep a page_size c 8" "sep slot 8 c 8" "sep y page_size c 8" for c
      using that page_cells [OF wf that(3)] by (simp add: read64_write64_sep fr)
    have 1: "read64 ?m' slot = a + ?hdr" by (simp add: read64_write64_same)
    have 2: "read64 ?m' a = magic L" "read64 ?m' (a + off_previous L) = slot"
        "read64 ?m' (a + off_fnHooked L) = y + ?hdr" "read64 ?m' (a + off_fnNew L) = fn"
      using sa ya i y(1) by (simp_all add: read64_write64_sep)
    have 3: "read64 ?m' y = magic L"
      using sy wf_field_seps [OF wf, of y] fr [OF ayc(1)] y(2)
      by (simp add: read64_write64_sep)
    have 4: "read64 ?m' (y + off_previous L) = a"
      using sy by (simp add: read64_write64_sep read64_write64_same)
    have 5: "read64 ?m' (y + off_fnHooked L) = read64 (mem s) (y + off_fnHooked L)"
      using sy wf_field_seps [OF wf, of y] fr [OF ayc(3)]
      by (simp add: read64_write64_sep)
    have tl: "\<forall>z\<in>set tl. read64 ?m' z = read64 (mem s) z
                 \<and> read64 ?m' (z + off_previous L) = read64 (mem s) (z + off_previous L)
                 \<and> read64 ?m' (z + off_fnHooked L) = read64 (mem s) (z + off_fnHooked L)"
    proof
      fix z assume z: "z \<in> set tl"
      have az: "sep a page_size z page_size" and zs: "sep z page_size slot 8"
        and yz: "sep y page_size z page_size"
        using pl Cons z by (auto simp: placed_set)
      show "read64 ?m' z = read64 (mem s) z
                 \<and> read64 ?m' (z + off_previous L) = read64 (mem s) (z + off_previous L)
                 \<and> read64 ?m' (z + off_fnHooked L) = read64 (mem s) (z + off_fnHooked L)"
        using page_cells' [OF wf sep_sym [OF az]] page_cells' [OF wf zs]
          page_cells' [OF wf sep_sym [OF yz]]
        by (auto intro!: fr')
    qed
    have 6: "routes L ?m' (read64 (mem s) (y + off_fnHooked L)) y tl F0"
      using y(4) routes_frame [OF tl] by simp
    have 7: "read64 ?m' (F0 - ?hdr) = read64 (mem s) (F0 - ?hdr)"
      using af sf yf by (intro fr')
    show ?thesis
      using Cons 1 2 3 4 5 6 7 f by (simp add: hk chain_def)
  qed
qed

lemma destroy_all_chain:
  assumes wf: "wf_layout L" and ok: "\<And>p. VirtualProtect_rwx h p"
  shows "placed L slot hs F0 \<Longrightarrow> chain L (mem s) slot hs F0
    \<Longrightarrow> read64 (mem s) (F0 - sizeof_header L) \<noteq> magic L
    \<Longrightarrow> distinct xs \<Longrightarrow> set xs = set hs
    \<Longrightarrow> \<exists>s'. destroy_all L h s xs = Some s' \<and> read64 (mem s') slot = F0
             \<and> pages s' = pages s - set xs"
proof (induction xs arbitrary: hs s)
  case Nil
  then show ?case by (simp add: chain_def)
next
  case (Cons x xs)
  have x: "x \<in> set hs" using Cons.prems(5) by auto
  let ?s = "\<lparr>mem = unlink L h (mem s) x, pages = pages s - {x}\<rparr>"
  have d: "destroy L h s x = Some ?s"
    and c: "chain L (mem ?s) slot (remove1 x hs) F0"
    and f: "read64 (mem ?s) (F0 - sizeof_header L) \<noteq> magic L"
    using destroy_chain [OF wf ok Cons.prems(1) Cons.prems(2) Cons.prems(3) x] by simp_all
  have dh: "distinct hs" using Cons.prems(1) by (simp add: placed_set)
  have st: "set xs = set (remove1 x hs)"
    using Cons.prems(4,5) dh by (auto simp: set_remove1_eq)
  obtain s' where s': "destroy_all L h ?s xs = Some s'" "read64 (mem s') slot = F0"
      "pages s' = pages ?s - set xs"
    using Cons.IH [OF placed_remove1 [OF Cons.prems(1)] c f _ st] Cons.prems(4) by auto
  show ?case
    using d s' by auto
qed




lemma bytes_at_write_bytes_drop:
  assumes "k + n \<le> length bs" "length bs < 2 ^ 64"
  shows "bytes_at (write_bytes m a bs) (a + of_nat k) n = take n (drop k bs)"
proof (rule nth_equalityI)
  show "length (bytes_at (write_bytes m a bs) (a + of_nat k) n) = length (take n (drop k bs))"
    using assms by (simp add: bytes_at_def)
next
  fix i assume "i < length (bytes_at (write_bytes m a bs) (a + of_nat k) n)"
  then have i: "i < n" by (simp add: bytes_at_def)
  then have "k + i < 2 ^ 64" using assms by simp
  then have "unat (of_nat (k + i) :: addr) = k + i"
    by (simp del: of_nat_add add: unat_of_nat)
  then have "unat (of_nat k + of_nat i :: addr) = k + i"
    by simp
  then show "bytes_at (write_bytes m a bs) (a + of_nat k) n ! i = take n (drop k bs) ! i"
    using i assms by (simp add: bytes_at_def write_bytes_def add.assoc)
qed

lemma length_VFTHook_asmRaw: "length VFTHook_asmRaw = 114"
  by (simp add: VFTHook_asmRaw_def)

lemma init_hook_asmRaw:
  "bytes_at (init_hook VFTHook_layout h m a v f) (a + 56) 114 = VFTHook_asmRaw"
proof -
  let ?cs = "construct VFTHook_layout (new_context h)"
  have cs: "?cs = le64 0x6B6F6F48544656 @ replicate 48 0 @ VFTHook_asmRaw @ replicate 6 0"
    by (simp add: VFTHook_layout_def)
  have l: "length ?cs = 176" by (simp add: cs length_VFTHook_asmRaw)
  have "bytes_at (write_bytes (write_bytes m a (replicate page_size 0)) a ?cs) (a + of_nat 56) 114
      = take 114 (drop 56 ?cs)"
    by (rule bytes_at_write_bytes_drop) (simp_all add: l)
  also have "\<dots> = VFTHook_asmRaw"
    by (simp add: cs length_VFTHook_asmRaw)
  finally have b: "bytes_at (write_bytes (write_bytes m a (replicate page_size 0)) a ?cs) (a + 56) 114
      = VFTHook_asmRaw" by simp
  have s: "sep (a + 8) 8 (a + 56) 114" "sep (a + 16) 8 (a + 56) 114"
     "sep (a + 40) 8 (a + 56) 114" "sep (a + 24) 8 (a + 56) 114" "sep (a + 32) 8 (a + 56) 114"
    by (simp_all add: sep_def)
  have o: "off_mutex VFTHook_layout = 8" "off_fnHooked VFTHook_layout = 40"
     "off_previous VFTHook_layout = 24" "off_fnNew VFTHook_layout = 32"
    by (simp_all add: VFTHook_layout_def)
  show ?thesis
    using s b by (simp add: init_hook_def Let_def o bytes_at_write64_sep add.assoc)
qed

lemma VFTHook_layout_simps:
  "magic VFTHook_layout = 0x6B6F6F48544656" "off_mutex VFTHook_layout = 8"
  "off_previous VFTHook_layout = 24" "off_fnNew VFTHook_layout = 32"
  "off_fnHooked VFTHook_layout = 40" "sizeof_header VFTHook_layout = 56"
  by (simp_all add: VFTHook_layout_def)

section \<open>Claims about installing and removing hooks\<close>

lemma unhooked_reads:
  "read64 (mem unhooked) 0x1400020A0 = 0x140001000"
  "read64 (mem unhooked) 0x140000FC8 = 0"
  by (simp_all add: unhooked_def rw_eval)

lemma sample_os_simps:
  "VirtualAlloc (sample_os a) = a" "VirtualProtect_rwx (sample_os a) p"
  by (simp_all add: sample_os_def)










text \<open>
  Claim C2 (single install). A class name resolves to the VFT \<open>V\<close>; slot 20 of \<open>V\<close>
  (address \<open>V + 160\<close>) holds \<open>F0\<close> and is unhooked, that is, the eight bytes at
  \<open>F0 - 56\<close>, where the code looks for the header of an earlier hook, are not the magic.
  \<open>VirtualAlloc\<close> returns a page \<open>a\<close> (not null, not wrapping around the end of the
  address space) that shares no byte with the slot or with those eight bytes, and
  \<open>VirtualProtect\<close> succeeds on the slot. Then the install by name returns the handle
  \<open>a\<close>, and afterwards the slot holds \<open>a + 56\<close>: not null, not the header address \<open>a\<close>,
  and the address of the 114 trampoline bytes that follow the 56-byte header; the header
  at \<open>a\<close> starts with the magic and has \<open>fnNew = fn\<close>, \<open>fnHooked = F0\<close> and
  \<open>previous = V + 160\<close>, the address of the slot.
\<close>

theorem single_install:
  assumes cls: "getClassRTTI cr className = Some pClass" "pVirtualFunctionTable pClass = V"
    and alloc: "VirtualAlloc h = a" "a \<noteq> 0" "unat a + page_size \<le> 2 ^ 64"
    and prot: "VirtualProtect_rwx h (V + 160)"
    and slot: "read64 (mem s) (V + 160) = F0"
    and unhooked: "read64 (mem s) (F0 - 56) \<noteq> 0x6B6F6F48544656"
    and seps: "sep a page_size (V + 160) 8" "sep a page_size (F0 - 56) 8"
    and res: "s' = snd (VFTHook_by_name VFTHook_layout h cr s className 20 fn)"
  shows "fst (VFTHook_by_name VFTHook_layout h cr s className 20 fn) = a
       \<and> pages s' = insert a (pages s)
       \<and> read64 (mem s') (V + 160) = a + 56
       \<and> a + 56 \<noteq> 0 \<and> a + 56 \<noteq> a
       \<and> bytes_at (mem s') (a + 56) 114 = VFTHook_asmRaw
       \<and> read64 (mem s') a = 0x6B6F6F48544656
       \<and> read64 (mem s') (a + 32) = fn
       \<and> read64 (mem s') (a + 40) = F0
       \<and> read64 (mem s') (a + 24) = V + 160"
proof -
  note wf = wf_VFTHook_layout
  let ?L = VFTHook_layout
  let ?m = "init_hook ?L h (mem s) a (V + 160) fn"
  have sl: "V + 160 = V + 8 * ucast (20 :: 32 word)" by simp
  have hk: "hook ?L h s V 20 fn
      = (a, \<lparr>mem = write64 ?m (V + 160) (a + 56), pages = insert a (pages s)\<rparr>)"
    using hook_no_chain [OF wf alloc(1,2) sl, of s fn] seps unhooked slot prot
    by (simp add: VFTHook_layout_simps rdataWrite_ok)
  have s': "s' = \<lparr>mem = write64 ?m (V + 160) (a + 56), pages = insert a (pages s)\<rparr>"
    using res cls hk by (simp add: VFTHook_by_name_def)
  have sa: "sep (V + 160) 8 a 8" "sep (V + 160) 8 (a + 24) 8"
      "sep (V + 160) 8 (a + 40) 8" "sep (V + 160) 8 (a + 32) 8"
    using page_cells' [OF wf seps(1)] by (simp_all add: VFTHook_layout_simps)
  have sb: "sep (V + 160) 8 (a + 56) 114"
    using sep_sym [OF sep_sub_left [OF seps(1), of 56 114]] by (simp add: page_size_def)
  have i: "read64 ?m a = 0x6B6F6F48544656" "read64 ?m (a + 24) = V + 160"
    "read64 ?m (a + 40) = F0" "read64 ?m (a + 32) = fn"
    using init_hook_magic [OF wf, of h "mem s" a "V + 160" fn]
      init_hook_previous [OF wf, of h "mem s" a "V + 160" fn]
      init_hook_fnHooked [OF wf seps(1), of h "mem s" fn]
      init_hook_fnNew [of ?L h "mem s" a "V + 160" fn] slot
    by (simp_all add: VFTHook_layout_simps)
  have "unat (a + 56) = unat a + 56"
    using alloc(3) by (simp add: unat_plus_if' page_size_def)
  then have nz: "a + 56 \<noteq> 0" by (metis add_is_0 unat_0 zero_neq_numeral)
  show ?thesis
    using cls hk sa sb i nz
    by (simp add: s' VFTHook_by_name_def read64_write64_same read64_write64_sep
          bytes_at_write64_sep init_hook_asmRaw)
qed

theorem single_install_witness:
  "getClassRTTI PlayerIns_index (str ''CS::PlayerIns'')
     = Some \<lparr>pVirtualFunctionTable = 0x140002000, pCompleteObjectLocator = 0x140002500,
         pTypeDescriptor = 0x140003000, pClassHierarchyDescriptor = 0x140002540,
         pBaseClassDescriptor = 0x140002550\<rparr>
   \<and> read64 (mem unhooked) 0x1400020A0 = 0x140001000
   \<and> fst (VFTHook_by_name VFTHook_layout (sample_os 0x7FF000010000) PlayerIns_index unhooked
          (str ''CS::PlayerIns'') 20 0x7FFB00001000) = 0x7FF000010000
   \<and> read64 (mem (snd (VFTHook_by_name VFTHook_layout (sample_os 0x7FF000010000)
          PlayerIns_index unhooked (str ''CS::PlayerIns'') 20 0x7FFB00001000))) 0x1400020A0
       = 0x7FF000010038
   \<and> read64 (mem (snd (VFTHook_by_name VFTHook_layout (sample_os 0x7FF000010000)
          PlayerIns_index unhooked (str ''CS::PlayerIns'') 20 0x7FFB00001000))) 0x7FF000010020
       = 0x7FFB00001000
   \<and> read64 (mem (snd (VFTHook_by_name VFTHook_layout (sample_os 0x7FF000010000)
          PlayerIns_index unhooked (str ''CS::PlayerIns'') 20 0x7FFB00001000))) 0x7FF000010028
       = 0x140001000
   \<and> read64 (mem (snd (VFTHook_by_name VFTHook_layout (sample_os 0x7FF000010000)
          PlayerIns_index unhooked (str ''CS::PlayerIns'') 20 0x7FFB00001000))) 0x7FF000010018
       = 0x1400020A0"
  using single_install [where cr = PlayerIns_index and className = "str ''CS::PlayerIns''"
      and pClass = "\<lparr>pVirtualFunctionTable = 0x140002000, pCompleteObjectLocator = 0x140002500,
         pTypeDescriptor = 0x140003000, pClassHierarchyDescriptor = 0x140002540,
         pBaseClassDescriptor = 0x140002550\<rparr>"
      and V = "0x140002000" and h = "sample_os 0x7FF000010000" and a = "0x7FF000010000"
      and s = unhooked and ?F0.0 = "0x140001000" and fn = "0x7FFB00001000"
      and s' = "snd (VFTHook_by_name VFTHook_layout (sample_os 0x7FF000010000)
          PlayerIns_index unhooked (str ''CS::PlayerIns'') 20 0x7FFB00001000)"]
  by (simp add: getClassRTTI_def PlayerIns_index_def sample_os_simps unhooked_reads
        sep_def page_size_def)
















lemma placed_tl: "placed L slot (x # hs) F0 \<Longrightarrow> placed L slot hs F0"
  by (auto simp: placed_set)

text \<open>
  Claim C1 (chain install and uninstall). A slot holds \<open>F0\<close> and is unhooked. Three
  hooks \<open>H1\<close>, \<open>H2\<close>, \<open>H3\<close> are installed on it in that order, on pages \<open>a1\<close>, \<open>a2\<close>, \<open>a3\<close>
  placed apart from each other, from the slot and from the eight bytes in front of \<open>F0\<close>,
  with every protection change succeeding. Then the three handles are \<open>a1\<close>, \<open>a2\<close>, \<open>a3\<close>
  and the hooks form the chain \<open>a3\<close>, \<open>a2\<close>, \<open>a1\<close> on the slot. Destroying the three
  handles in any order \<open>xs\<close> returns (every destructor finds its topmost hook), leaves
  \<open>F0\<close> in the slot, and releases the three pages. Destroying the middle hook \<open>a2\<close> alone
  returns and leaves the chain \<open>a3\<close>, \<open>a1\<close>: the slot holds the trampoline of \<open>a3\<close>, whose
  \<open>previous\<close> is the slot and whose \<open>fnHooked\<close> is the trampoline of \<open>a1\<close>, whose
  \<open>previous\<close> is \<open>a3\<close> and whose \<open>fnHooked\<close> is \<open>F0\<close>.
\<close>

theorem chain_install_uninstall:
  assumes pl: "placed VFTHook_layout slot [a3, a2, a1] F0"
    and slot: "slot = pVFT + 8 * ucast vftIndex"
    and F0: "read64 (mem s0) slot = F0"
    and nh: "read64 (mem s0) (F0 - 56) \<noteq> 0x6B6F6F48544656"
    and al: "VirtualAlloc h1 = a1" "VirtualAlloc h2 = a2" "VirtualAlloc h3 = a3"
    and ok: "\<forall>p. VirtualProtect_rwx h1 p \<and> VirtualProtect_rwx h2 p
                \<and> VirtualProtect_rwx h3 p \<and> VirtualProtect_rwx h p"
    and s1: "s1 = snd (hook VFTHook_layout h1 s0 pVFT vftIndex H1)"
    and s2: "s2 = snd (hook VFTHook_layout h2 s1 pVFT vftIndex H2)"
    and s3: "s3 = snd (hook VFTHook_layout h3 s2 pVFT vftIndex H3)"
    and xs: "distinct xs" "set xs = {a1, a2, a3}"
  shows "fst (hook VFTHook_layout h1 s0 pVFT vftIndex H1) = a1
       \<and> fst (hook VFTHook_layout h2 s1 pVFT vftIndex H2) = a2
       \<and> fst (hook VFTHook_layout h3 s2 pVFT vftIndex H3) = a3
       \<and> chain VFTHook_layout (mem s3) slot [a3, a2, a1] F0
       \<and> (\<exists>s'. destroy_all VFTHook_layout h s3 xs = Some s'
                \<and> read64 (mem s') slot = F0
                \<and> pages s' = pages s0 - {a1, a2, a3})
       \<and> (\<exists>s'. destroy VFTHook_layout h s3 a2 = Some s'
                \<and> pages s' = pages s3 - {a2}
                \<and> read64 (mem s') slot = a3 + 56
                \<and> read64 (mem s') a3 = 0x6B6F6F48544656
                \<and> read64 (mem s') (a3 + 24) = slot
                \<and> read64 (mem s') (a3 + 40) = a1 + 56
                \<and> read64 (mem s') a1 = 0x6B6F6F48544656
                \<and> read64 (mem s') (a1 + 24) = a3
                \<and> read64 (mem s') (a1 + 40) = F0)"
proof -
  let ?L = VFTHook_layout
  note wf = wf_VFTHook_layout
  have ok1: "\<And>p. VirtualProtect_rwx h1 p" and ok2: "\<And>p. VirtualProtect_rwx h2 p"
    and ok3: "\<And>p. VirtualProtect_rwx h3 p" and okh: "\<And>p. VirtualProtect_rwx h p"
    using ok by simp_all
  have pl2: "placed ?L slot [a2, a1] F0" by (rule placed_tl [OF pl])
  have pl1: "placed ?L slot [a1] F0" by (rule placed_tl [OF pl2])
  have c0: "chain ?L (mem s0) slot [] F0" using F0 by (simp add: chain_def)
  have f0: "read64 (mem s0) (F0 - sizeof_header ?L) \<noteq> magic ?L"
    using nh by (simp add: VFTHook_layout_simps)
  have i1: "fst (hook ?L h1 s0 pVFT vftIndex H1) = a1" "pages s1 = insert a1 (pages s0)"
      "chain ?L (mem s1) slot [a1] F0" "read64 (mem s1) (F0 - sizeof_header ?L) \<noteq> magic ?L"
    using install_chain [OF wf ok1 al(1) slot pl1 c0 f0, of H1] by (simp_all add: s1)
  have i2: "fst (hook ?L h2 s1 pVFT vftIndex H2) = a2" "pages s2 = insert a2 (pages s1)"
      "chain ?L (mem s2) slot [a2, a1] F0" "read64 (mem s2) (F0 - sizeof_header ?L) \<noteq> magic ?L"
    using install_chain [OF wf ok2 al(2) slot pl2 i1(3) i1(4), of H2] by (simp_all add: s2)
  have i3: "fst (hook ?L h3 s2 pVFT vftIndex H3) = a3" "pages s3 = insert a3 (pages s2)"
      "chain ?L (mem s3) slot [a3, a2, a1] F0"
      "read64 (mem s3) (F0 - sizeof_header ?L) \<noteq> magic ?L"
    using install_chain [OF wf ok3 al(3) slot pl i2(3) i2(4), of H3] by (simp_all add: s3)
  have st: "set xs = set [a3, a2, a1]" using xs(2) by auto
  obtain s' where d: "destroy_all ?L h s3 xs = Some s'" "read64 (mem s') slot = F0"
      "pages s' = pages s3 - set xs"
    using destroy_all_chain [OF wf okh pl i3(3) i3(4) xs(1) st] by blast
  have pg: "pages s' = pages s0 - {a1, a2, a3}"
    using d(3) i1(2) i2(2) i3(2) xs(2) by auto
  have da: "distinct [a3, a2, a1]" using pl by (simp add: placed_set)
  have m: "destroy ?L h s3 a2 = Some \<lparr>mem = unlink ?L h (mem s3) a2, pages = pages s3 - {a2}\<rparr>"
      "chain ?L (unlink ?L h (mem s3) a2) slot (remove1 a2 [a3, a2, a1]) F0"
    using destroy_chain [OF wf okh pl i3(3) i3(4), of a2] by simp_all
  have "remove1 a2 [a3, a2, a1] = [a3, a1]" using da by auto
  then have mc: "chain ?L (unlink ?L h (mem s3) a2) slot [a3, a1] F0" using m(2) by simp
  show ?thesis
    using i1(1) i2(1) i3(1) i3(3) d(1,2) pg m(1) mc
    by (simp add: chain_def VFTHook_layout_simps)
qed

theorem chain_install_uninstall_witness:
  "fst (hook VFTHook_layout (sample_os 0x7FF000010000) unhooked 0x140002000 20 0x7FFB00001000)
     = 0x7FF000010000
   \<and> fst (hook VFTHook_layout (sample_os 0x7FF000020000) hooked_once 0x140002000 20
            0x7FFB00002000) = 0x7FF000020000
   \<and> fst (hook VFTHook_layout (sample_os 0x7FF000030000) hooked_twice 0x140002000 20
            0x7FFB00003000) = 0x7FF000030000
   \<and> chain VFTHook_layout (mem hooked_thrice) 0x1400020A0
        [0x7FF000030000, 0x7FF000020000, 0x7FF000010000] 0x140001000
   \<and> (\<exists>s'. destroy_all VFTHook_layout (sample_os 0) hooked_thrice
               [0x7FF000020000, 0x7FF000030000, 0x7FF000010000] = Some s'
            \<and> read64 (mem s') 0x1400020A0 = 0x140001000
            \<and> pages s' = {})
   \<and> (\<exists>s'. destroy VFTHook_layout (sample_os 0) hooked_thrice 0x7FF000020000 = Some s'
            \<and> pages s' = pages hooked_thrice - {0x7FF000020000}
            \<and> read64 (mem s') 0x1400020A0 = 0x7FF000030038
            \<and> read64 (mem s') 0x7FF000030000 = 0x6B6F6F48544656
            \<and> read64 (mem s') 0x7FF000030018 = 0x1400020A0
            \<and> read64 (mem s') 0x7FF000030028 = 0x7FF000010038
            \<and> read64 (mem s') 0x7FF000010000 = 0x6B6F6F48544656
            \<and> read64 (mem s') 0x7FF000010018 = 0x7FF000030000
            \<and> read64 (mem s') 0x7FF000010028 = 0x140001000)"
proof -
  have pl: "placed VFTHook_layout 0x1400020A0
      [0x7FF000030000, 0x7FF000020000, 0x7FF000010000] 0x140001000"
    by (simp add: placed_def VFTHook_layout_simps sep_def page_size_def)
  have slot: "(0x1400020A0 :: addr) = 0x140002000 + 8 * ucast (20 :: 32 word)" by simp
  have F0: "read64 (mem unhooked) 0x1400020A0 = 0x140001000" by (simp add: unhooked_reads)
  have nh: "read64 (mem unhooked) (0x140001000 - 56) \<noteq> 0x6B6F6F48544656"
    by (simp add: unhooked_reads)
  have al: "VirtualAlloc (sample_os 0x7FF000010000) = 0x7FF000010000"
      "VirtualAlloc (sample_os 0x7FF000020000) = 0x7FF000020000"
      "VirtualAlloc (sample_os 0x7FF000030000) = 0x7FF000030000"
    by (simp_all add: sample_os_simps)
  have ok: "\<forall>p. VirtualProtect_rwx (sample_os 0x7FF000010000) p
      \<and> VirtualProtect_rwx (sample_os 0x7FF000020000) p
      \<and> VirtualProtect_rwx (sample_os 0x7FF000030000) p
      \<and> VirtualProtect_rwx (sample_os 0) p"
    by (simp add: sample_os_simps)
  have xs: "distinct [0x7FF000020000, 0x7FF000030000, 0x7FF000010000 :: addr]"
      "set [0x7FF000020000, 0x7FF000030000, 0x7FF000010000 :: addr]
         = {0x7FF000010000, 0x7FF000020000, 0x7FF000030000}"
    by auto
  note T = chain_install_uninstall [where ?H1.0 = "0x7FFB00001000"
      and ?H2.0 = "0x7FFB00002000" and ?H3.0 = "0x7FFB00003000",
      OF pl slot F0 nh al ok hooked_once_def hooked_twice_def hooked_thrice_def xs]
  have p0: "pages unhooked = {}" by (simp add: unhooked_def)
  show ?thesis using T unfolding p0 by simp
qed

section \<open>Properties of image-base offsets\<close>

lemma ucast_scast_32_64: "(ucast (scast (v::32 word) :: 64 word) :: 32 word) = v"
  by (rule bit_word_eqI) (auto simp add: bit_simps)

lemma sint_ucast_64_32: "sint (ucast (x::64 word) :: 32 word) = signed_take_bit 31 (sint x)"
  apply (simp add: sint_uint)
  apply (rule bit_eqI)
  apply (auto simp add: bit_simps)
  done

lemma scast_ucast_64_32:
  assumes "- (2^31) \<le> sint (x::64 word)" "sint x < 2^31"
  shows "(scast (ucast x :: 32 word) :: 64 word) = x"
proof -
  have "signed_take_bit 31 (sint x) = sint x"
    using assms by (simp add: signed_take_bit_int_eq_self)
  then have "sint (ucast x :: 32 word) = sint x"
    by (simp add: sint_ucast_64_32)
  then show ?thesis
    by (simp add: scast_eq)
qed

lemma ibo32_of_as: "ibo32_of (ibo32_as v B') B' = v"
  unfolding ibo32_of_def ibo32_as_def
  by (simp add: ucast_scast_32_64)

text \<open>
  Claim C6 (IBO32 round-trip). Let the raw address \<open>A\<close> lie within a \<open>2^31\<close>-byte window
  of the base \<open>B\<close>, that is, the signed 64-bit difference \<open>A - B\<close> fits an \<open>int\<close>. Then the
  offset built from \<open>(A, B)\<close> converts back to \<open>A\<close> under \<open>B\<close>; and converting that offset to
  an address under any base \<open>B'\<close> and back to an offset under \<open>B'\<close> returns the same offset.
\<close>

theorem ibo32_round_trip:
  assumes "- (2^31) \<le> sint (A - B)" and "sint (A - B) < 2^31"
  shows "ibo32_as (ibo32_of A B) B = A
       \<and> ibo32_of (ibo32_as (ibo32_of A B) B') B' = ibo32_of A B"
proof
  show "ibo32_as (ibo32_of A B) B = A"
    using assms unfolding ibo32_of_def ibo32_as_def
    by (simp add: scast_ucast_64_32)
  show "ibo32_of (ibo32_as (ibo32_of A B) B') B' = ibo32_of A B"
    by (rule ibo32_of_as)
qed

theorem ibo32_round_trip_witness:
  "ibo32_as (ibo32_of 0x7FF6A0001500 0x7FF6A0000000) 0x7FF6A0000000 = 0x7FF6A0001500
   \<and> ibo32_of (ibo32_as (ibo32_of 0x7FF6A0001500 0x7FF6A0000000) 0x140000000) 0x140000000
       = ibo32_of 0x7FF6A0001500 0x7FF6A0000000
   \<and> ibo32_of 0x7FF6A0001500 0x7FF6A0000000 = 0x1500"
  using ibo32_round_trip [of "0x7FF6A0001500" "0x7FF6A0000000" "0x140000000"]
  by (simp add: ibo32_of_def)

end
